theory Spec2Isabelle
  imports Complex_Main "HOL-Library.Multiset"
begin

section \<open>Data model of \<open>ccal/association.py\<close>\<close>

text \<open>
  Sample identifiers are the labels of a pandas index. The source tests them for
  truthiness (\<open>any(shared)\<close>), so the two label kinds that occur in practice are kept
  apart: integer labels (0 is falsy) and string labels (the empty string is falsy).
\<close>

datatype label = IntLabel int | StrLabel string

fun truthy :: "label \<Rightarrow> bool" where
  "truthy (IntLabel i) = (i \<noteq> 0)"
| "truthy (StrLabel s) = (s \<noteq> [])"

text \<open>A pandas Series: labelled values in index order.\<close>

type_synonym 'v series = "(label \<times> 'v) list"

text \<open>
  A pandas DataFrame of features: the column labels (sample identifiers) and one row per
  feature identifier; a row holds one value per column.
\<close>

record ('f, 'v) frame =
  columns :: "label list"
  rows :: "('f \<times> 'v list) list"

definition wf_frame :: "('f, 'v) frame \<Rightarrow> bool" where
  "wf_frame fr = list_all (\<lambda>r. length (snd r) = length (columns fr)) (rows fr)"

datatype error =
    InputMismatch
  | NoViableFeatures
  | ZeroDivisionError
  | NoObjectsToConcatenate
  | PercentileOutOfRange
  | SliceIndexNotInteger

section \<open>Library operations used by the source\<close>

text \<open>\<open>index & other\<close>: the labels of \<open>index\<close> that also occur in \<open>other\<close>.\<close>

definition index_intersection :: "label list \<Rightarrow> label list \<Rightarrow> label list" where
  "index_intersection idx other = filter (\<lambda>k. k \<in> set other) idx"

text \<open>\<open>s.ix[labels]\<close>: for each requested label in turn, the entries carrying it.\<close>

definition ix_series :: "('k \<times> 'v) list \<Rightarrow> 'k list \<Rightarrow> ('k \<times> 'v) list" where
  "ix_series s labels = concat (map (\<lambda>l. filter (\<lambda>kv. fst kv = l) s) labels)"

text \<open>
  \<open>s.sort_values(ascending=False)\<close>: pandas sorts ascending and reverses. The order of
  equal values is whatever the sort leaves; nothing below depends on it.
\<close>

definition sort_values_desc :: "('k \<times> 'v::linorder) list \<Rightarrow> ('k \<times> 'v) list" where
  "sort_values_desc s = rev (sort_key snd s)"

text \<open>\<open>df.ix[:, labels]\<close>: every row, read as a series over the columns, restricted to the labels.\<close>

definition ix_columns :: "('f, 'v) frame \<Rightarrow> label list \<Rightarrow> ('f, 'v) frame" where
  "ix_columns fr labels =
     \<lparr> columns = map fst (ix_series (zip (columns fr) (columns fr)) labels),
       rows = map (\<lambda>r. (fst r, map snd (ix_series (zip (columns fr) (snd r)) labels))) (rows fr) \<rparr>"

text \<open>\<open>df.ix[labels, :]\<close>: for each requested row label in turn, the rows carrying it.\<close>

definition ix_rows :: "('f, 'v) frame \<Rightarrow> 'f list \<Rightarrow> ('f, 'v) frame" where
  "ix_rows fr labels = fr\<lparr>rows := ix_series (rows fr) labels\<rparr>"

text \<open>\<open>len(set(f))\<close> for a row \<open>f\<close>.\<close>

definition n_unique :: "'v list \<Rightarrow> nat" where
  "n_unique vs = length (remdups vs)"

section \<open>\<open>make_association_panel\<close>: preprocessing\<close>

text \<open>
  Lines 108-121: keep only the columns shared by target and features. The guard is
  \<open>any(shared)\<close>, which asks whether some shared label is truthy.
\<close>

definition align ::
  "'v::linorder series \<Rightarrow> ('f, 'v) frame \<Rightarrow> error + ('v series \<times> ('f, 'v) frame)" where
  "align target features =
     (let shared = index_intersection (map fst target) (columns features) in
      if list_ex truthy shared then
        (let target' = sort_values_desc (ix_series target shared);
             features' = ix_columns features (map fst target')
         in Inr (target', features'))
      else Inl InputMismatch)"

text \<open>Lines 123-130: drop features having less than 2 unique values.\<close>

definition min_n_unique_values :: nat where
  "min_n_unique_values = 2"

definition drop_degenerate :: "('f, 'v) frame \<Rightarrow> error + ('f, 'v) frame" where
  "drop_degenerate features =
     (let features' = features\<lparr>rows := filter (\<lambda>r. n_unique (snd r) \<ge> min_n_unique_values) (rows features)\<rparr>
      in if rows features' = [] \<or> columns features' = [] then Inl NoViableFeatures
         else Inr features')"

definition preprocess ::
  "'v::linorder series \<Rightarrow> ('f, 'v) frame \<Rightarrow> error + ('v series \<times> ('f, 'v) frame)" where
  "preprocess target features =
     (case align target features of
        Inl e \<Rightarrow> Inl e
      | Inr (target', features') \<Rightarrow>
          (case drop_degenerate features' of
             Inl e \<Rightarrow> Inl e
           | Inr features'' \<Rightarrow> Inr (target', features'')))"

section \<open>\<open>associate\<close>: the scoring stage\<close>

type_synonym 'v scorer = "'v list \<Rightarrow> 'v list \<Rightarrow> real"

text \<open>
  \<open>_score\<close> (lines 414-423), named \<open>p_score\<close> here: the score of each feature row is
  \<open>func(t, a_f)\<close>, the target first. Its one argument is the tuple the source unpacks.
\<close>

definition p_score :: "'v series \<times> ('f, 'v) frame \<times> 'v scorer \<Rightarrow> ('f \<times> real) list" where
  "p_score args =
     (case args of (t, f, func) \<Rightarrow> map (\<lambda>a_f. (fst a_f, func (map snd t) (snd a_f))) (rows f))"

text \<open>
  \<open>features.iloc[a:b, :]\<close> for the bounds the source uses, \<open>0 \<le> a \<le> b\<close> (the loop
  runs only for a positive \<open>n_jobs\<close>, and then \<open>n_per_job\<close> is not negative).
\<close>

definition iloc_rows :: "('f, 'v) frame \<Rightarrow> int \<Rightarrow> int \<Rightarrow> ('f, 'v) frame" where
  "iloc_rows fr a b = fr\<lparr>rows := take (nat b - nat a) (drop (nat a) (rows fr))\<rparr>"

text \<open>Line 256, for every \<open>i\<close> of \<open>range(n_jobs)\<close>.\<close>

definition split_features :: "('f, 'v) frame \<Rightarrow> int \<Rightarrow> int \<Rightarrow> ('f, 'v) frame list" where
  "split_features features n_jobs n_per_job =
     map (\<lambda>i. iloc_rows features (int i * n_per_job) ((int i + 1) * n_per_job)) [0..<nat n_jobs]"

text \<open>
  Lines 254-261: \<open>leftovers\<close> starts as the list of all feature identifiers, and each
  identifier of each split is removed from it once (\<open>list.remove\<close> deletes the first
  occurrence; every identifier removed is still in the list, so it never raises).
\<close>

definition leftovers :: "('f, 'v) frame \<Rightarrow> ('f, 'v) frame list \<Rightarrow> 'f list" where
  "leftovers features splits =
     foldl (\<lambda>l sf. foldl (\<lambda>l' feature. remove1 feature l') l (map fst (rows sf)))
           (map fst (rows features)) splits"

text \<open>
  Lines 235-270. \<open>parallelize\<close> is imported from \<open>ccal.support\<close>; it is a parameter
  here, called as the source calls it: the worker function, the argument tuples and
  \<open>n_jobs\<close>. \<open>concat\<close> of an empty list of frames raises.
\<close>

definition score_stage ::
  "(('v series \<times> ('f, 'v) frame \<times> 'v scorer \<Rightarrow> ('f \<times> real) list)
      \<Rightarrow> ('v series \<times> ('f, 'v) frame \<times> 'v scorer) list \<Rightarrow> int \<Rightarrow> ('f \<times> real) list list)
   \<Rightarrow> 'v series \<Rightarrow> ('f, 'v) frame \<Rightarrow> 'v scorer \<Rightarrow> int \<Rightarrow> int \<Rightarrow> error + ('f \<times> real) list" where
  "score_stage parallelize target features function n_jobs min_n_per_job =
     (if n_jobs = 1 then Inr (p_score (target, features, function))
      else if n_jobs = 0 then Inl ZeroDivisionError
      else
        (let n_per_job = int (length (rows features)) div n_jobs in
         if n_per_job < min_n_per_job then Inr (p_score (target, features, function))
         else
           (let splits = split_features features n_jobs n_per_job;
                args = map (\<lambda>sf. (target, sf, function)) splits;
                lo = leftovers features splits;
                results = parallelize p_score args n_jobs
            in if results = [] then Inl NoObjectsToConcatenate
               else
                 (let scores = concat results
                  in if lo \<noteq> [] then
                       Inr (scores @ p_score (target, ix_rows features lo, function))
                     else Inr scores))))"

text \<open>
  Line 273: \<open>scores.sort_values('score', ascending=features_ascending)\<close>. The order
  of equal scores is whatever the sort leaves.
\<close>

definition sort_by_score :: "bool \<Rightarrow> ('f \<times> real) list \<Rightarrow> ('f \<times> real) list" where
  "sort_by_score ascending scores =
     (if ascending then sort_key snd scores else rev (sort_key snd scores))"

definition sorted_scores ::
  "(('v series \<times> ('f, 'v) frame \<times> 'v scorer \<Rightarrow> ('f \<times> real) list)
      \<Rightarrow> ('v series \<times> ('f, 'v) frame \<times> 'v scorer) list \<Rightarrow> int \<Rightarrow> ('f \<times> real) list list)
   \<Rightarrow> 'v series \<Rightarrow> ('f, 'v) frame \<Rightarrow> 'v scorer \<Rightarrow> int \<Rightarrow> bool \<Rightarrow> int \<Rightarrow> error + ('f \<times> real) list" where
  "sorted_scores parallelize target features function n_jobs features_ascending min_n_per_job =
     (case score_stage parallelize target features function n_jobs min_n_per_job of
        Inl e \<Rightarrow> Inl e
      | Inr scores \<Rightarrow> Inr (sort_by_score features_ascending scores))"

section \<open>\<open>associate\<close>: the bootstrap stage\<close>

text \<open>
  The value of \<open>n_features\<close>: an \<open>int\<close>, a \<open>float\<close>, or anything else (\<open>None\<close>),
  told apart by the \<open>isinstance\<close> tests of line 278. Its numeric value is read only
  behind these tests, so what \<open>value_of\<close> gives for anything else is never used.
\<close>

datatype n_features = IntN int | FloatN real | NotNumeric

fun is_numeric :: "n_features \<Rightarrow> bool" where
  "is_numeric (IntN i) = True"
| "is_numeric (FloatN x) = True"
| "is_numeric NotNumeric = False"

fun value_of :: "n_features \<Rightarrow> real" where
  "value_of (IntN i) = real_of_int i"
| "value_of (FloatN x) = x"
| "value_of NotNumeric = 0"

text \<open>\<open>ceil(0.632 * features.shape[1])\<close>.\<close>

definition resample_size :: "nat \<Rightarrow> nat" where
  "resample_size m = nat \<lceil>632 / 1000 * real m\<rceil>"

text \<open>
  \<open>Series.quantile(q)\<close> with linear interpolation, for a non-empty series and
  \<open>0 \<le> q \<le> 1\<close>; the caller checks both.
\<close>

definition quantile :: "real list \<Rightarrow> real \<Rightarrow> real" where
  "quantile xs q =
     (let s = sort xs;
          pos = q * real (length xs - 1);
          lo = nat \<lfloor>pos\<rfloor>;
          hi = nat \<lceil>pos\<rceil>
      in s ! lo + (s ! hi - s ! lo) * (pos - real lo))"

text \<open>
  Lines 288-308: the features to bootstrap. A percentile outside \<open>[0, 1]\<close> makes
  \<open>quantile\<close> raise; on an empty score table the quantiles are NaN and no row compares
  true; a \<open>float\<close> of at least 1 that does not cover the table is used as a slice bound,
  which raises.
\<close>

definition indices_to_bootstrap :: "n_features \<Rightarrow> ('f \<times> real) list \<Rightarrow> error + 'f list" where
  "indices_to_bootstrap n_features scores =
     (let v = value_of n_features in
      if v < 1 then
        (if v < 0 then Inl PercentileOutOfRange
         else if scores = [] then Inr []
         else
           (let top = quantile (map snd scores) v;
                bottom = quantile (map snd scores) (1 - v)
            in Inr (map fst (filter (\<lambda>r. snd r \<ge> top \<or> snd r \<le> bottom) scores))))
      else if 2 * v \<ge> real (length scores) then Inr (map fst scores)
      else
        (case n_features of
           IntN n \<Rightarrow> Inr (take (nat n) (map fst scores) @ drop (length scores - nat n) (map fst scores))
         | _ \<Rightarrow> Inl SliceIndexNotInteger))"

text \<open>\<open>Series.std()\<close>: the sample standard deviation (one degree of freedom removed).\<close>

definition mean :: "real list \<Rightarrow> real" where
  "mean xs = sum_list xs / real (length xs)"

definition std :: "real list \<Rightarrow> real" where
  "std xs = sqrt (sum_list (map (\<lambda>x. (x - mean xs)\<^sup>2) xs) / real (length xs - 1))"

text \<open>
  Lines 313-320. \<open>choice\<close> is numpy's random draw, a parameter here: round number,
  population and size to the labels drawn. In round \<open>c_i\<close> the selected rows and the
  target are restricted to the drawn labels, and each row is scored by
  \<open>function(f, sampled_target)\<close>, the feature row first. A feature's entry collects its
  scores over the rounds (the frame \<open>sampled_scores\<close> is indexed by the selected
  identifiers, as the rows of \<open>sampled_features\<close> are).
\<close>

definition sampled_scores ::
  "(nat \<Rightarrow> label list \<Rightarrow> nat \<Rightarrow> label list) \<Rightarrow> 'v series \<Rightarrow> ('f, 'v) frame \<Rightarrow> 'v scorer
   \<Rightarrow> 'f list \<Rightarrow> int \<Rightarrow> ('f \<times> real list) list" where
  "sampled_scores choice target features function idx n_samplings =
     map (\<lambda>r. (fst r,
            map (\<lambda>c_i.
                  (let ramdom_samples = choice c_i (columns features) (resample_size (length (columns features)));
                       sampled_feature = map snd (ix_series (zip (columns features) (snd r)) ramdom_samples);
                       sampled_target = map snd (ix_series target ramdom_samples)
                   in function sampled_feature sampled_target))
                [0..<nat n_samplings]))
         (rows (ix_rows features idx))"

text \<open>
  Lines 278-329. The result is \<open>None\<close> when the stage is skipped, and otherwise the
  frame \<open>confidence_intervals\<close>. \<open>norm.ppf\<close> is a parameter.
\<close>

definition bootstrap_stage ::
  "(nat \<Rightarrow> label list \<Rightarrow> nat \<Rightarrow> label list) \<Rightarrow> (real \<Rightarrow> real) \<Rightarrow> 'v series \<Rightarrow> ('f, 'v) frame
   \<Rightarrow> 'v scorer \<Rightarrow> ('f \<times> real) list \<Rightarrow> n_features \<Rightarrow> int \<Rightarrow> real
   \<Rightarrow> error + ('f \<times> real) list option" where
  "bootstrap_stage choice norm_ppf target features function scores n_features n_samplings confidence =
     (if \<not> is_numeric n_features then Inr None
      else if n_samplings < 2 then Inr None
      else if resample_size (length (columns features)) < 3 then Inr None
      else
        (case indices_to_bootstrap n_features scores of
           Inl e \<Rightarrow> Inl e
         | Inr idx \<Rightarrow>
             (let z_critical = norm_ppf confidence
              in Inr (Some (map (\<lambda>f. (fst f, z_critical * (std (snd f) / sqrt (real_of_int n_samplings))))
                             (sampled_scores choice target features function idx n_samplings))))))"

section \<open>\<open>associate\<close>: the permutation stage\<close>

text \<open>
  \<open>_permute_and_score\<close> (lines 426-445), named \<open>p_permute_and_score\<close>. It works on
  arrays that can be mutated in place, so arrays live in a store: a list of arrays, an
  address being a position in it. The target's values are at address \<open>t\<close>.
  \<open>array(t)\<close> allocates a copy at the next free address, and every round shuffles that
  copy in place and scores each row by \<open>func(shuffled_target, r)\<close>. \<open>shuffle\<close> is
  numpy's, a parameter here: round number and array to the shuffled array.
\<close>

type_synonym 'v store = "'v list list"

fun permute_rounds ::
  "(nat \<Rightarrow> 'v list \<Rightarrow> 'v list) \<Rightarrow> ('f, 'v) frame \<Rightarrow> 'v scorer \<Rightarrow> nat \<Rightarrow> nat list
   \<Rightarrow> 'v store \<times> ('f \<times> real list) list \<Rightarrow> 'v store \<times> ('f \<times> real list) list" where
  "permute_rounds shuffle f func shuffled_target [] st = st"
| "permute_rounds shuffle f func shuffled_target (p # ps) st =
     (let h = (fst st)[shuffled_target := shuffle p (fst st ! shuffled_target)];
          col = map (\<lambda>r. func (h ! shuffled_target) (snd r)) (rows f)
      in permute_rounds shuffle f func shuffled_target ps
           (h, map2 (\<lambda>s c. (fst s, snd s @ [c])) (snd st) col))"

definition p_permute_and_score ::
  "(nat \<Rightarrow> 'v list \<Rightarrow> 'v list) \<Rightarrow> 'v store \<Rightarrow> nat \<times> ('f, 'v) frame \<times> 'v scorer \<times> int
   \<Rightarrow> 'v store \<times> ('f \<times> real list) list" where
  "p_permute_and_score shuffle h args =
     (case args of (t, f, func, n_perms) \<Rightarrow>
        (let scores = map (\<lambda>r. (fst r, [])) (rows f);
             shuffled_target = length h;
             h' = h @ [h ! t]
         in permute_rounds shuffle f func shuffled_target [0..<nat n_perms] (h', scores)))"

text \<open>
  The call as \<open>associate\<close> makes it, with the target series as argument: the series'
  values are the one array of the store, and the matrix of scores is what comes back.
\<close>

definition permute_and_score_of ::
  "(nat \<Rightarrow> 'v list \<Rightarrow> 'v list) \<Rightarrow> 'v series \<times> ('f, 'v) frame \<times> 'v scorer \<times> int
   \<Rightarrow> ('f \<times> real list) list" where
  "permute_and_score_of shuffle args =
     (case args of (target, f, func, n_perms) \<Rightarrow>
        snd (p_permute_and_score shuffle [map snd target] (0, f, func, n_perms)))"

text \<open>
  Lines 340-385, the same splitting as in the scoring stage. Every call of the worker
  draws its shuffles from \<open>shuffle\<close> by round number; how the random streams of
  separate workers relate is numpy's and \<open>parallelize\<close>'s business, and only the shape
  of the resulting matrix is used below.
\<close>

definition null_scores ::
  "(('v series \<times> ('f, 'v) frame \<times> 'v scorer \<times> int \<Rightarrow> ('f \<times> real list) list)
      \<Rightarrow> ('v series \<times> ('f, 'v) frame \<times> 'v scorer \<times> int) list \<Rightarrow> int \<Rightarrow> ('f \<times> real list) list list)
   \<Rightarrow> (nat \<Rightarrow> 'v list \<Rightarrow> 'v list)
   \<Rightarrow> 'v series \<Rightarrow> ('f, 'v) frame \<Rightarrow> 'v scorer \<Rightarrow> int \<Rightarrow> int \<Rightarrow> int
   \<Rightarrow> error + ('f \<times> real list) list" where
  "null_scores parallelize shuffle target features function n_jobs min_n_per_job n_permutations =
     (if n_jobs = 1 then Inr (permute_and_score_of shuffle (target, features, function, n_permutations))
      else if n_jobs = 0 then Inl ZeroDivisionError
      else
        (let n_per_job = int (length (rows features)) div n_jobs in
         if n_per_job < min_n_per_job then
           Inr (permute_and_score_of shuffle (target, features, function, n_permutations))
         else
           (let splits = split_features features n_jobs n_per_job;
                args = map (\<lambda>sf. (target, sf, function, n_permutations)) splits;
                lo = leftovers features splits;
                results = parallelize (permute_and_score_of shuffle) args n_jobs
            in if results = [] then Inl NoObjectsToConcatenate
               else
                 (let scores = concat results
                  in if lo \<noteq> [] then
                       Inr (scores @ permute_and_score_of shuffle
                                        (target, ix_rows features lo, function, n_permutations))
                     else Inr scores))))"

text \<open>
  Lines 389-395. The pooled null distribution is the flattened matrix; a feature's
  p-value is the share of pooled values above its score, over
  \<open>n_permutations * features.shape[0]\<close>, and a p-value of zero is replaced by
  \<open>1 / (n_permutations * scores.shape[0])\<close>. Feature identifiers are unique keys, so the
  row addressed by \<open>r_i\<close> is the row the loop is at. The loop body runs only in the branch
  \<open>n_permutations \<ge> 1\<close> and only for a row of \<open>scores\<close>, so with one score per
  feature both divisors are positive.
\<close>

definition all_permutation_scores :: "('f \<times> real list) list \<Rightarrow> real list" where
  "all_permutation_scores permutation_scores = concat (map snd permutation_scores)"

definition p_value_of :: "real list \<Rightarrow> int \<Rightarrow> nat \<Rightarrow> nat \<Rightarrow> real \<Rightarrow> real" where
  "p_value_of pooled n_permutations features_shape0 scores_shape0 score =
     (let p_value = real (length (filter (\<lambda>x. x > score) pooled))
                    / real_of_int (n_permutations * int features_shape0)
      in if p_value = 0 then 1 / real_of_int (n_permutations * int scores_shape0) else p_value)"

definition p_values ::
  "('f \<times> real list) list \<Rightarrow> int \<Rightarrow> ('f, 'v) frame \<Rightarrow> ('f \<times> real) list \<Rightarrow> real list" where
  "p_values permutation_scores n_permutations features scores =
     map (\<lambda>r. p_value_of (all_permutation_scores permutation_scores) n_permutations
                 (length (rows features)) (length scores) (snd r))
         scores"

text \<open>
  \<open>multipletests(pvals, method='fdr_bh')[1]\<close> of statsmodels: sort the p-values, divide
  the one of rank \<open>i\<close> (from 1) by \<open>i / n\<close>, take the running minimum from the right, cap
  at 1, and put the values back in the input's order.
\<close>

fun minimum_accumulate_right :: "real list \<Rightarrow> real list" where
  "minimum_accumulate_right [] = []"
| "minimum_accumulate_right [x] = [x]"
| "minimum_accumulate_right (x # y # ys) =
     (let r = minimum_accumulate_right (y # ys) in min x (hd r) # r)"

definition fdr_bh :: "real list \<Rightarrow> real list" where
  "fdr_bh pvals =
     (let n = length pvals;
          sorted_pairs = sort_key fst (zip pvals [0..<n]);
          sortind = map snd sorted_pairs;
          pvals_corrected_raw =
            map2 (\<lambda>p i. p / (real (i + 1) / real n)) (map fst sorted_pairs) [0..<n];
          pvals_corrected = map (\<lambda>p. if p > 1 then 1 else p) (minimum_accumulate_right pvals_corrected_raw)
      in map snd (sort_key fst (zip sortind pvals_corrected)))"

text \<open>The four columns of \<open>p_values_and_fdrs\<close>, one entry per row of \<open>scores\<close>.\<close>

record p_columns =
  p_value :: "real list"
  fdr_forward :: "real list"
  fdr_reverse :: "real list"
  fdr :: "real list"

text \<open>Lines 397-401.\<close>

definition p_values_and_fdrs ::
  "('f \<times> real list) list \<Rightarrow> int \<Rightarrow> ('f, 'v) frame \<Rightarrow> ('f \<times> real) list \<Rightarrow> p_columns" where
  "p_values_and_fdrs permutation_scores n_permutations features scores =
     (let ps = p_values permutation_scores n_permutations features scores;
          forward = fdr_bh ps;
          reverse = fdr_bh (map (\<lambda>p. 1 - p) ps)
      in \<lparr> p_value = ps, fdr_forward = forward, fdr_reverse = reverse,
           fdr = map2 min forward reverse \<rparr>)"

text \<open>Lines 334-404: skipped when \<open>n_permutations < 1\<close>.\<close>

definition permutation_stage ::
  "(('v series \<times> ('f, 'v) frame \<times> 'v scorer \<times> int \<Rightarrow> ('f \<times> real list) list)
      \<Rightarrow> ('v series \<times> ('f, 'v) frame \<times> 'v scorer \<times> int) list \<Rightarrow> int \<Rightarrow> ('f \<times> real list) list list)
   \<Rightarrow> (nat \<Rightarrow> 'v list \<Rightarrow> 'v list)
   \<Rightarrow> 'v series \<Rightarrow> ('f, 'v) frame \<Rightarrow> 'v scorer \<Rightarrow> ('f \<times> real) list \<Rightarrow> int \<Rightarrow> int \<Rightarrow> int
   \<Rightarrow> error + p_columns option" where
  "permutation_stage parallelize shuffle target features function scores n_jobs min_n_per_job n_permutations =
     (if n_permutations < 1 then Inr None
      else
        (case null_scores parallelize shuffle target features function n_jobs min_n_per_job
                n_permutations of
           Inl e \<Rightarrow> Inl e
         | Inr pm \<Rightarrow> Inr (Some (p_values_and_fdrs pm n_permutations features scores))))"

section \<open>\<open>associate\<close> and \<open>make_association_panel\<close>\<close>

text \<open>
  What the source takes from outside: \<open>parallelize\<close> of \<open>ccal.support\<close> (at the two
  types it is used at), numpy's \<open>choice\<close> and \<open>shuffle\<close>, and scipy's \<open>norm.ppf\<close>.
\<close>

record ('f, 'v) externals =
  ext_parallelize_score ::
    "('v series \<times> ('f, 'v) frame \<times> 'v scorer \<Rightarrow> ('f \<times> real) list)
      \<Rightarrow> ('v series \<times> ('f, 'v) frame \<times> 'v scorer) list \<Rightarrow> int \<Rightarrow> ('f \<times> real) list list"
  ext_parallelize_permute ::
    "('v series \<times> ('f, 'v) frame \<times> 'v scorer \<times> int \<Rightarrow> ('f \<times> real list) list)
      \<Rightarrow> ('v series \<times> ('f, 'v) frame \<times> 'v scorer \<times> int) list \<Rightarrow> int \<Rightarrow> ('f \<times> real list) list list"
  ext_choice :: "nat \<Rightarrow> label list \<Rightarrow> nat \<Rightarrow> label list"
  ext_shuffle :: "nat \<Rightarrow> 'v list \<Rightarrow> 'v list"
  ext_norm_ppf :: "real \<Rightarrow> real"

text \<open>
  The table \<open>associate\<close> returns: the sorted scores; the margin-of-error column, absent
  (\<open>None\<close>) when the bootstrap stage was skipped and otherwise holding, per row, the
  feature's margin of error if it was bootstrapped; the p-value and FDR columns, absent
  when the permutation stage was skipped.
\<close>

record 'f score_table =
  score_rows :: "('f \<times> real) list"
  moe_column :: "real option list option"
  p_value_columns :: "p_columns option"

definition associate ::
  "('f, 'v) externals \<Rightarrow> 'v series \<Rightarrow> ('f, 'v) frame \<Rightarrow> 'v scorer \<Rightarrow> int \<Rightarrow> bool \<Rightarrow> n_features
   \<Rightarrow> int \<Rightarrow> int \<Rightarrow> real \<Rightarrow> int \<Rightarrow> error + 'f score_table" where
  "associate ext target features function n_jobs features_ascending n_features min_n_per_job
             n_samplings confidence n_permutations =
     (case sorted_scores (ext_parallelize_score ext) target features function n_jobs features_ascending
             min_n_per_job of
        Inl e \<Rightarrow> Inl e
      | Inr scores \<Rightarrow>
          (case bootstrap_stage (ext_choice ext) (ext_norm_ppf ext) target features function scores n_features
                  n_samplings confidence of
             Inl e \<Rightarrow> Inl e
           | Inr confidence_intervals \<Rightarrow>
               (case permutation_stage (ext_parallelize_permute ext) (ext_shuffle ext) target features function
                       scores n_jobs min_n_per_job n_permutations of
                  Inl e \<Rightarrow> Inl e
                | Inr pcols \<Rightarrow>
                    Inr \<lparr> score_rows = scores,
                          moe_column = map_option (\<lambda>ci. map (\<lambda>r. map_of ci (fst r)) scores)
                                                  confidence_intervals,
                          p_value_columns = pcols \<rparr>)))"

text \<open>
  \<open>make_association_panel\<close> up to the scores it returns (lines 108-140);
  \<open>information_coefficient\<close>, the default scoring function of \<open>associate\<close>, is a
  parameter, and the other defaults of \<open>associate\<close> are written out.
\<close>

definition make_association_panel ::
  "('f, 'v::linorder) externals \<Rightarrow> 'v scorer \<Rightarrow> 'v series \<Rightarrow> ('f, 'v) frame \<Rightarrow> int \<Rightarrow> bool
   \<Rightarrow> n_features \<Rightarrow> int \<Rightarrow> int \<Rightarrow> error + 'f score_table" where
  "make_association_panel ext information_coefficient target features n_jobs features_ascending
                          n_features n_samplings n_permutations =
     (case preprocess target features of
        Inl e \<Rightarrow> Inl e
      | Inr (target', features') \<Rightarrow>
          associate ext target' features' information_coefficient n_jobs features_ascending n_features
                    100 n_samplings (95 / 100) n_permutations)"

section \<open>What the rounds of the permutation loop see\<close>

text \<open>
  The successive contents of an array that is shuffled in place once per round: round
  \<open>p\<close> shuffles what round \<open>p - 1\<close> left. Used to state what \<open>permute_rounds\<close>
  computes.
\<close>

fun shuffled_targets :: "(nat \<Rightarrow> 'v list \<Rightarrow> 'v list) \<Rightarrow> 'v list \<Rightarrow> nat list \<Rightarrow> 'v list list" where
  "shuffled_targets shuffle t [] = []"
| "shuffled_targets shuffle t (p # ps) = shuffle p t # shuffled_targets shuffle (shuffle p t) ps"

section \<open>Example inputs\<close>

text \<open>A small run used to exercise the theorems below at concrete values.\<close>

definition example_target :: "int series" where
  "example_target = [(IntLabel 1, 5), (IntLabel 2, 4), (IntLabel 3, 3), (IntLabel 4, 1)]"

definition example_features :: "(string, int) frame" where
  "example_features =
     \<lparr>columns = [IntLabel 3, IntLabel 1, IntLabel 2, IntLabel 4],
      rows = [(''F1'', [3, 5, 4, 1]), (''F2'', [7, 7, 7, 7]), (''F3'', [3, 1, 2, 4])]\<rparr>"

definition example_scorer :: "int scorer" where
  "example_scorer t f = real_of_int (sum_list (map2 (*) t f))"

definition example_externals :: "(string, int) externals" where
  "example_externals =
     \<lparr>ext_parallelize_score = (\<lambda>f args n. rev (map f args)),
      ext_parallelize_permute = (\<lambda>f args n. rev (map f args)),
      ext_choice = (\<lambda>c pop k. take k (rotate c pop)),
      ext_shuffle = (\<lambda>p xs. rotate1 xs),
      ext_norm_ppf = (\<lambda>c. 2)\<rparr>"

text \<open>The same run after alignment and after the degenerate row \<open>F2\<close> is dropped.\<close>

definition example_aligned_target :: "int series" where
  "example_aligned_target = [(IntLabel 1, 5), (IntLabel 2, 4), (IntLabel 3, 3), (IntLabel 4, 1)]"

definition example_kept_features :: "(string, int) frame" where
  "example_kept_features =
     \<lparr>columns = [IntLabel 1, IntLabel 2, IntLabel 3, IntLabel 4],
      rows = [(''F1'', [5, 4, 3, 1]), (''F3'', [1, 2, 3, 4])]\<rparr>"

section \<open>Alignment\<close>

lemma ix_series_distinct_mset:
  assumes "distinct (map fst s)" and "distinct labels"
  shows "mset (ix_series s labels) = mset (filter (\<lambda>kv. fst kv \<in> set labels) s)"
  using assms(2)
proof (induction labels)
  case Nil
  then show ?case by (simp add: ix_series_def)
next
  case (Cons l ls)
  have "mset (filter (\<lambda>kv. fst kv \<in> set (l # ls)) s)
        = mset (filter (\<lambda>kv. fst kv = l) s) + mset (filter (\<lambda>kv. fst kv \<in> set ls) s)"
    using Cons.prems by (induction s) auto
  with Cons show ?case by (simp add: ix_series_def)
qed

lemma filter_key_single:
  "distinct (map fst s) \<Longrightarrow> l \<in> fst ` set s \<Longrightarrow> map fst (filter (\<lambda>kv. fst kv = l) s) = [l]"
proof (induction s)
  case Nil
  then show ?case by simp
next
  case (Cons a s)
  show ?case
  proof (cases "fst a = l")
    case True
    with Cons.prems have "l \<notin> fst ` set s" by auto
    then have "\<forall>kv \<in> set s. fst kv \<noteq> l" by (metis image_eqI)
    then have "filter (\<lambda>kv. fst kv = l) s = []"
      by (simp add: filter_empty_conv)
    with True show ?thesis by simp
  next
    case False
    with Cons show ?thesis by auto
  qed
qed

lemma map_fst_ix_series:
  assumes "set labels \<subseteq> fst ` set s" and "distinct (map fst s)"
  shows "map fst (ix_series s labels) = labels"
  using assms(1)
proof (induction labels)
  case Nil
  then show ?case by (simp add: ix_series_def)
next
  case (Cons l ls)
  have one: "map fst (filter (\<lambda>kv. fst kv = l) s) = [l]"
    using Cons.prems(1) assms(2) by (simp add: filter_key_single)
  from Cons have "map fst (ix_series s ls) = ls" by simp
  with one show ?case by (simp add: ix_series_def)
qed

lemma sort_values_desc_mset: "mset (sort_values_desc s) = mset s"
  by (simp add: sort_values_desc_def)

lemma sort_values_desc_sorted: "sorted (rev (map snd (sort_values_desc s)))"
  by (simp add: sort_values_desc_def rev_map [symmetric])

lemma map_snd_ix_series:
  assumes "set labels \<subseteq> fst ` set s" and "distinct (map fst s)"
  shows "map snd (ix_series s labels) = map (\<lambda>k. the (map_of s k)) labels"
  using assms(1)
proof (induction labels)
  case Nil
  then show ?case by (simp add: ix_series_def)
next
  case (Cons l ls)
  from Cons.prems obtain v where v: "(l, v) \<in> set s" by auto
  have "filter (\<lambda>kv. fst kv = l) s = [(l, v)]"
    using assms(2) v
  proof (induction s)
    case Nil
    then show ?case by simp
  next
    case (Cons a s)
    show ?case
    proof (cases "a = (l, v)")
      case True
      with Cons.prems have "l \<notin> fst ` set s" by auto
      then have "\<forall>kv \<in> set s. fst kv \<noteq> l" by (metis image_eqI)
      then have "filter (\<lambda>kv. fst kv = l) s = []" by (simp add: filter_empty_conv)
      with True show ?thesis by simp
    next
      case False
      with Cons.prems have "(l, v) \<in> set s" by simp
      moreover from this Cons.prems have "fst a \<noteq> l" by (metis distinct.simps(2) fst_conv image_eqI list.simps(9) set_map)
      ultimately show ?thesis using Cons by simp
    qed
  qed
  moreover have "map_of s l = Some v" using assms(2) v by simp
  moreover from Cons have "map snd (ix_series s ls) = map (\<lambda>k. the (map_of s k)) ls" by simp
  ultimately show ?case by (simp add: ix_series_def)
qed

text \<open>
  What alignment does whenever its guard lets it through: with unique sample identifiers
  on both sides, the target is restricted to the shared identifiers and sorted
  descending by value, the feature columns are exactly the target's new index, and
  every row holds, column by column, the value it had under that sample identifier.
\<close>

lemma align_truthy:
  fixes target :: "'v::linorder series" and features :: "('f, 'v) frame"
  assumes dt: "distinct (map fst target)" and dc: "distinct (columns features)"
    and wf: "wf_frame features"
    and tr: "list_ex truthy (index_intersection (map fst target) (columns features))"
  shows "\<exists>target' features'. align target features = Inr (target', features')
      \<and> mset target' = mset (filter (\<lambda>kv. fst kv \<in> set (columns features)) target)
      \<and> sorted (rev (map snd target'))
      \<and> columns features' = map fst target'
      \<and> rows features' =
          map (\<lambda>r. (fst r, map (\<lambda>k. the (map_of (zip (columns features) (snd r)) k)) (map fst target')))
              (rows features)"
proof -
  define shared where "shared = index_intersection (map fst target) (columns features)"
  define target' where "target' = sort_values_desc (ix_series target shared)"
  define features' where "features' = ix_columns features (map fst target')"
  have res: "align target features = Inr (target', features')"
    using tr by (simp add: align_def Let_def shared_def target'_def features'_def)
  have dsh: "distinct shared"
    using dt by (simp add: shared_def index_intersection_def)
  have set_sh: "set shared = fst ` set target \<inter> set (columns features)"
    by (auto simp: shared_def index_intersection_def)
  have m1: "mset target' = mset (filter (\<lambda>kv. fst kv \<in> set shared) target)"
    by (simp add: target'_def sort_values_desc_mset ix_series_distinct_mset dt dsh)
  have "filter (\<lambda>kv. fst kv \<in> set shared) target
        = filter (\<lambda>kv. fst kv \<in> set (columns features)) target"
    by (rule filter_cong) (auto simp: set_sh)
  with m1 have m: "mset target' = mset (filter (\<lambda>kv. fst kv \<in> set (columns features)) target)"
    by simp
  have srt: "sorted (rev (map snd target'))"
    by (simp add: target'_def sort_values_desc_sorted)
  from m have "set target' = set (filter (\<lambda>kv. fst kv \<in> set (columns features)) target)"
    by (rule mset_eq_setD)
  then have sub: "set (map fst target') \<subseteq> set (columns features)" by auto
  have zc: "fst ` set (zip (columns features) (columns features)) = set (columns features)"
    by (metis map_fst_zip length_map list.map_ident set_map)
  have cols: "columns features' = map fst target'"
    using sub dc by (simp add: features'_def ix_columns_def map_fst_ix_series zc)
  have row: "map snd (ix_series (zip (columns features) (snd r)) (map fst target'))
             = map (\<lambda>k. the (map_of (zip (columns features) (snd r)) k)) (map fst target')"
    if "r \<in> set (rows features)" for r
  proof -
    from that wf have len: "length (snd r) = length (columns features)"
      by (simp add: wf_frame_def list_all_iff)
    then have "map fst (zip (columns features) (snd r)) = columns features" by simp
    then have "fst ` set (zip (columns features) (snd r)) = set (columns features)"
      and "distinct (map fst (zip (columns features) (snd r)))"
      using dc by (metis set_map, simp)
    with sub show ?thesis by (intro map_snd_ix_series) simp_all
  qed
  have rws: "rows features' =
      map (\<lambda>r. (fst r, map (\<lambda>k. the (map_of (zip (columns features) (snd r)) k)) (map fst target')))
          (rows features)"
    using row by (simp add: features'_def ix_columns_def)
  from res m srt cols rws show ?thesis by blast
qed

section \<open>The scoring stage through the partitioner\<close>

lemma concat_chunks:
  "concat (map (\<lambda>i. take k (drop (i * k) xs)) [0..<w]) = take (w * k) xs"
proof (induction w)
  case 0
  then show ?case by simp
next
  case (Suc w)
  have "Suc w * k = w * k + k" by simp
  then have "take (Suc w * k) xs = take (w * k) xs @ take k (drop (w * k) xs)"
    by (simp only: take_add)
  with Suc show ?case by simp
qed

lemma foldl_remove1_distinct:
  "distinct l \<Longrightarrow> foldl (\<lambda>l' x. remove1 x l') l xs = filter (\<lambda>x. x \<notin> set xs) l"
proof (induction xs arbitrary: l)
  case Nil
  then show ?case by simp
next
  case (Cons a xs)
  have "remove1 a l = filter (\<lambda>x. a \<noteq> x) l"
    using Cons.prems by (simp add: distinct_remove1_removeAll removeAll_filter_not_eq)
  moreover have "filter (\<lambda>x. x \<notin> set xs) (filter (\<lambda>x. a \<noteq> x) l) = filter (\<lambda>x. x \<notin> set (a # xs)) l"
    by (auto intro: filter_cong)
  moreover have "distinct (remove1 a l)" using Cons.prems by simp
  ultimately show ?case using Cons.IH [of "remove1 a l"] by simp
qed

lemma foldl_remove_chunks_distinct:
  "distinct l \<Longrightarrow>
   foldl (\<lambda>l xs. foldl (\<lambda>l' x. remove1 x l') l xs) l xss = filter (\<lambda>x. x \<notin> set (concat xss)) l"
proof (induction xss arbitrary: l)
  case Nil
  then show ?case by simp
next
  case (Cons xs xss)
  have "filter (\<lambda>x. x \<notin> set (concat xss)) (filter (\<lambda>x. x \<notin> set xs) l)
        = filter (\<lambda>x. x \<notin> set (concat (xs # xss))) l"
    by (auto intro: filter_cong)
  with Cons show ?case by (simp add: foldl_remove1_distinct)
qed

lemma filter_notin_take:
  "distinct xs \<Longrightarrow> filter (\<lambda>x. x \<notin> set (take k xs)) xs = drop k xs"
proof (induction xs arbitrary: k)
  case Nil
  then show ?case by simp
next
  case (Cons a xs)
  show ?case
  proof (cases k)
    case 0
    then show ?thesis by simp
  next
    case (Suc j)
    have "filter (\<lambda>x. x \<noteq> a \<and> x \<notin> set (take j xs)) xs = filter (\<lambda>x. x \<notin> set (take j xs)) xs"
      using Cons.prems by (intro filter_cong) auto
    with Cons Suc show ?thesis by simp
  qed
qed

lemma filter_key_entry:
  "distinct (map fst s) \<Longrightarrow> a \<in> set s \<Longrightarrow> filter (\<lambda>kv. fst kv = fst a) s = [a]"
proof (induction s)
  case Nil
  then show ?case by simp
next
  case (Cons b s)
  show ?case
  proof (cases "b = a")
    case True
    with Cons.prems have "fst a \<notin> fst ` set s" by auto
    then have "\<forall>kv \<in> set s. fst kv \<noteq> fst a" by (metis image_eqI)
    then have "filter (\<lambda>kv. fst kv = fst a) s = []" by (simp add: filter_empty_conv)
    with True show ?thesis by simp
  next
    case False
    with Cons.prems have a: "a \<in> set s" by auto
    with Cons.prems have "fst b \<noteq> fst a" by (metis distinct.simps(2) image_eqI list.simps(9) set_map)
    with Cons a show ?thesis by simp
  qed
qed

lemma ix_series_self:
  "distinct (map fst s) \<Longrightarrow> set t \<subseteq> set s \<Longrightarrow> ix_series s (map fst t) = t"
proof (induction t)
  case Nil
  then show ?case by (simp add: ix_series_def)
next
  case (Cons a t)
  then have "filter (\<lambda>kv. fst kv = fst a) s = [a]"
    by (simp add: filter_key_entry)
  with Cons show ?case by (simp add: ix_series_def)
qed

lemma split_features_rows:
  assumes "0 \<le> n_per_job"
  shows "concat (map rows (split_features features n_jobs n_per_job))
         = take (nat n_jobs * nat n_per_job) (rows features)"
proof -
  have "nat ((int i + 1) * n_per_job) - nat (int i * n_per_job) = nat n_per_job"
    and "nat (int i * n_per_job) = i * nat n_per_job" for i
    using assms by (simp_all add: nat_mult_distrib nat_add_distrib distrib_right)
  then have "map rows (split_features features n_jobs n_per_job)
        = map (\<lambda>i. take (nat n_per_job) (drop (i * nat n_per_job) (rows features))) [0..<nat n_jobs]"
    by (simp add: split_features_def iloc_rows_def)
  then show ?thesis by (simp add: concat_chunks)
qed

lemma leftovers_distinct:
  assumes "distinct (map fst (rows features))" and "0 \<le> n_per_job"
  shows "leftovers features (split_features features n_jobs n_per_job)
         = map fst (drop (nat n_jobs * nat n_per_job) (rows features))"
proof -
  let ?splits = "split_features features n_jobs n_per_job"
  let ?k = "nat n_jobs * nat n_per_job"
  have "leftovers features ?splits
        = foldl (\<lambda>l xs. foldl (\<lambda>l' x. remove1 x l') l xs) (map fst (rows features))
                (map (\<lambda>sf. map fst (rows sf)) ?splits)"
    by (simp add: leftovers_def foldl_map)
  also have "\<dots> = filter (\<lambda>x. x \<notin> set (concat (map (\<lambda>sf. map fst (rows sf)) ?splits)))
                      (map fst (rows features))"
    using assms(1) by (rule foldl_remove_chunks_distinct)
  also have "concat (map (\<lambda>sf. map fst (rows sf)) ?splits) = map fst (concat (map rows ?splits))"
    by (simp add: map_concat comp_def)
  also have "\<dots> = take ?k (map fst (rows features))"
    using assms(2) by (simp add: split_features_rows take_map)
  also have "filter (\<lambda>x. x \<notin> set (take ?k (map fst (rows features)))) (map fst (rows features))
             = drop ?k (map fst (rows features))"
    using assms(1) by (rule filter_notin_take)
  finally show ?thesis by (simp add: drop_map)
qed


lemma mset_concat_cong:
  assumes "mset xss = mset yss"
  shows "mset (concat xss) = mset (concat yss)"
proof -
  have "mset (concat xss) = sum_mset (image_mset mset (mset xss))"
    by (simp add: mset_concat sum_mset_sum_list [symmetric])
  also have "\<dots> = sum_mset (image_mset mset (mset yss))" using assms by simp
  also have "\<dots> = mset (concat yss)"
    by (simp add: mset_concat sum_mset_sum_list [symmetric])
  finally show ?thesis .
qed

lemma p_score_concat:
  "concat (map p_score (map (\<lambda>sf. (target, sf, function)) splits))
   = map (\<lambda>a_f. (fst a_f, function (map snd target) (snd a_f))) (concat (map rows splits))"
  by (induction splits) (simp_all add: p_score_def)

lemma score_stage_mset:
  fixes features :: "('f, 'v) frame"
  assumes ids: "distinct (map fst (rows features))"
    and w: "1 \<le> n_jobs"
    and par: "\<And>args. mset (parallelize p_score args n_jobs) = mset (map p_score args)"
  shows "\<exists>scores. score_stage parallelize target features function n_jobs min_n_per_job = Inr scores
           \<and> mset scores = mset (p_score (target, features, function))"
proof (cases "n_jobs = 1 \<or> int (length (rows features)) div n_jobs < min_n_per_job")
  case True
  with w show ?thesis by (auto simp: score_stage_def Let_def)
next
  case False
  define n_per_job where "n_per_job = int (length (rows features)) div n_jobs"
  define splits where "splits = split_features features n_jobs n_per_job"
  define args where "args = map (\<lambda>sf. (target, sf, function)) splits"
  define lo where "lo = leftovers features splits"
  define results where "results = parallelize p_score args n_jobs"
  define k where "k = nat n_jobs * nat n_per_job"
  define sc where "sc = (\<lambda>a_f :: 'f \<times> 'v list. (fst a_f, function (map snd target) (snd a_f)))"
  from w have npj: "0 \<le> n_per_job" by (simp add: n_per_job_def pos_imp_zdiv_nonneg_iff)
  from False w have "splits \<noteq> []" by (simp add: splits_def split_features_def)
  then have "args \<noteq> []" by (simp add: args_def)
  moreover have mres: "mset results = mset (map p_score args)"
    unfolding results_def by (rule par)
  ultimately have ne: "results \<noteq> []" by (metis mset_zero_iff map_is_Nil_conv)
  have "mset (concat results) = mset (concat (map p_score args))"
    using mres by (rule mset_concat_cong)
  also have "concat (map p_score args) = map sc (concat (map rows splits))"
    unfolding args_def sc_def by (rule p_score_concat)
  also have "concat (map rows splits) = take k (rows features)"
    unfolding splits_def k_def using npj by (rule split_features_rows)
  finally have main: "mset (concat results) = mset (map sc (take k (rows features)))" .
  have lo_eq: "lo = map fst (drop k (rows features))"
    unfolding lo_def splits_def k_def using ids npj by (rule leftovers_distinct)
  have "set (drop k (rows features)) \<subseteq> set (rows features)" by (rule set_drop_subset)
  with ids have "ix_series (rows features) lo = drop k (rows features)"
    unfolding lo_eq by (rule ix_series_self)
  then have left: "p_score (target, ix_rows features lo, function) = map sc (drop k (rows features))"
    by (simp add: p_score_def ix_rows_def sc_def)
  have all: "p_score (target, features, function) = map sc (rows features)"
    by (simp add: p_score_def sc_def)
  have split: "mset (map sc (rows features))
               = mset (map sc (take k (rows features))) + mset (map sc (drop k (rows features)))"
    by (metis append_take_drop_id map_append mset_append)
  have res: "score_stage parallelize target features function n_jobs min_n_per_job
        = Inr (if lo \<noteq> [] then concat results @ p_score (target, ix_rows features lo, function)
               else concat results)"
    using False w ne
    by (simp add: score_stage_def Let_def n_per_job_def [symmetric] splits_def [symmetric]
        args_def [symmetric] lo_def [symmetric] results_def [symmetric])
  show ?thesis
  proof (cases "lo = []")
    case True
    with lo_eq have "drop k (rows features) = []" by simp
    with split main all have "mset (concat results) = mset (p_score (target, features, function))"
      by simp
    with res True show ?thesis by simp
  next
    case False
    from split main left all
    have "mset (concat results @ p_score (target, ix_rows features lo, function))
          = mset (p_score (target, features, function))" by simp
    with res False show ?thesis by simp
  qed
qed


lemma sort_by_score_mset: "mset (sort_by_score ascending scores) = mset scores"
  by (simp add: sort_by_score_def)

text \<open>
  Claim C1 (partition equivalence). For a feature matrix with unique feature
  identifiers, a worker count \<open>n_jobs \<ge> 1\<close> and a \<open>parallelize\<close> that returns the
  workers' results, collected in any order, the sorted score table obtained through the
  splitting path holds exactly the rows of the fully sequential one (\<open>n_jobs = 1\<close>): the
  same multiset of (feature, score) rows, hence the same score for every feature. The
  features beyond the \<open>n_jobs\<close> equal chunks, \<open>n mod n_jobs\<close> of them, each occur once
  in it. (Lemma \<open>leftovers_distinct\<close> above: they are the list \<open>leftovers\<close> of the
  source.)
\<close>

theorem partition_equivalence:
  fixes features :: "('f, 'v) frame"
  assumes ids: "distinct (map fst (rows features))"
    and w: "1 \<le> n_jobs"
    and par: "\<And>args. mset (parallelize p_score args n_jobs) = mset (map p_score args)"
  shows "\<exists>scores sequential.
      sorted_scores parallelize target features function n_jobs features_ascending min_n_per_job = Inr scores
    \<and> sorted_scores parallelize target features function 1 features_ascending min_n_per_job = Inr sequential
    \<and> mset scores = mset sequential
    \<and> map_of scores = map_of sequential
    \<and> (\<forall>f \<in> set (map fst (drop (nat n_jobs * (length (rows features) div nat n_jobs)) (rows features))).
          count_list (map fst scores) f = 1)
    \<and> length (drop (nat n_jobs * (length (rows features) div nat n_jobs)) (rows features))
        = length (rows features) mod nat n_jobs"
proof -
  define plain where "plain = p_score (target, features, function)"
  define sequential where "sequential = sort_by_score features_ascending plain"
  have "\<exists>raw. score_stage parallelize target features function n_jobs min_n_per_job = Inr raw
          \<and> mset raw = mset plain"
    unfolding plain_def using ids w par by (rule score_stage_mset)
  then obtain raw where raw: "score_stage parallelize target features function n_jobs min_n_per_job = Inr raw"
    and mraw: "mset raw = mset plain"
    by blast
  define scores where "scores = sort_by_score features_ascending raw"
  have r1: "sorted_scores parallelize target features function n_jobs features_ascending min_n_per_job
            = Inr scores"
    by (simp add: sorted_scores_def raw scores_def)
  have r2: "sorted_scores parallelize target features function 1 features_ascending min_n_per_job
            = Inr sequential"
    by (simp add: sorted_scores_def score_stage_def sequential_def plain_def)
  have m: "mset scores = mset sequential"
    by (simp add: scores_def sequential_def sort_by_score_mset mraw)
  have "map fst plain = map fst (rows features)"
    by (simp add: plain_def p_score_def comp_def)
  moreover have "mset (map fst sequential) = mset (map fst plain)"
    by (simp add: sequential_def sort_by_score_mset)
  ultimately have mids: "mset (map fst sequential) = mset (map fst (rows features))" by simp
  with ids have dseq: "distinct (map fst sequential)"
    by (metis mset_eq_imp_distinct_iff)
  from m have mm: "mset (map fst scores) = mset (map fst sequential)" by simp
  with dseq have dsc: "distinct (map fst scores)"
    by (metis mset_eq_imp_distinct_iff)
  from m have "set scores = set sequential" by (rule mset_eq_setD)
  with dsc dseq have mo: "map_of scores = map_of sequential"
    by (simp add: map_of_inject_set)
  have once: "count_list (map fst scores) f = 1" if "f \<in> set (map fst (rows features))" for f
  proof -
    from that mm mids have "f \<in> set (map fst scores)" by (metis mset_eq_setD)
    with dsc show ?thesis by (simp add: count_mset [symmetric] distinct_count_atmost_1)
  qed
  have left: "\<forall>f \<in> set (map fst (drop (nat n_jobs * (length (rows features) div nat n_jobs)) (rows features))).
          count_list (map fst scores) f = 1"
  proof
    fix f
    assume "f \<in> set (map fst (drop (nat n_jobs * (length (rows features) div nat n_jobs)) (rows features)))"
    then have "f \<in> set (map fst (rows features))"
      by (metis drop_map in_set_dropD)
    then show "count_list (map fst scores) f = 1" by (rule once)
  qed
  have len: "length (drop (nat n_jobs * (length (rows features) div nat n_jobs)) (rows features))
        = length (rows features) mod nat n_jobs"
    by (simp add: minus_mult_div_eq_mod)
  from r1 r2 m mo left len show ?thesis by blast
qed


theorem partition_equivalence_witness:
  "distinct (map fst (rows \<lparr>columns = [IntLabel 1, IntLabel 2],
       rows = [(''a'', [1, 0]), (''b'', [0, 1]), (''c'', [1, 1]), (''d'', [2, 1]), (''e'', [3::int, 5])]\<rparr>))
   \<and> (1::int) \<le> 2
   \<and> (\<exists>scores sequential.
      sorted_scores (\<lambda>f args n. rev (map f args)) [(IntLabel 1, 2), (IntLabel 2, 1)]
        \<lparr>columns = [IntLabel 1, IntLabel 2],
         rows = [(''a'', [1, 0]), (''b'', [0, 1]), (''c'', [1, 1]), (''d'', [2, 1]), (''e'', [3, 5])]\<rparr>
        (\<lambda>t f. real_of_int (sum_list (map2 (*) t f))) 2 False 1 = Inr scores
    \<and> sorted_scores (\<lambda>f args n. rev (map f args)) [(IntLabel 1, 2), (IntLabel 2, 1)]
        \<lparr>columns = [IntLabel 1, IntLabel 2],
         rows = [(''a'', [1, 0]), (''b'', [0, 1]), (''c'', [1, 1]), (''d'', [2, 1]), (''e'', [3, 5])]\<rparr>
        (\<lambda>t f. real_of_int (sum_list (map2 (*) t f))) 1 False 1 = Inr sequential
    \<and> mset scores = mset sequential
    \<and> map_of scores = map_of sequential
    \<and> count_list (map fst scores) ''e'' = 1)"
proof -
  let ?F = "\<lparr>columns = [IntLabel 1, IntLabel 2],
       rows = [(''a'', [1, 0]), (''b'', [0, 1]), (''c'', [1, 1]), (''d'', [2, 1]), (''e'', [3::int, 5])]\<rparr>"
  let ?par = "\<lambda>(f :: int series \<times> (string, int) frame \<times> int scorer \<Rightarrow> (string \<times> real) list) args (n::int).
                 rev (map f args)"
  have d: "distinct (map fst (rows ?F))" by simp
  have w: "(1::int) \<le> 2" by simp
  have p: "\<And>args. mset (?par p_score args 2) = mset (map p_score args)"
    by simp
  have e: "''e'' \<in> set (map fst (drop (nat 2 * (length (rows ?F) div nat 2)) (rows ?F)))"
    by simp
  from partition_equivalence [of "?F" 2 "?par" "[(IntLabel 1, 2), (IntLabel 2, 1)]"
      "\<lambda>t f. real_of_int (sum_list (map2 (*) t f))" False 1, OF d w p]
  obtain scores sequential where
    "sorted_scores ?par [(IntLabel 1, 2), (IntLabel 2, 1)] ?F
        (\<lambda>t f. real_of_int (sum_list (map2 (*) t f))) 2 False 1 = Inr scores"
    "sorted_scores ?par [(IntLabel 1, 2), (IntLabel 2, 1)] ?F
        (\<lambda>t f. real_of_int (sum_list (map2 (*) t f))) 1 False 1 = Inr sequential"
    "mset scores = mset sequential" "map_of scores = map_of sequential"
    "\<forall>f \<in> set (map fst (drop (nat 2 * (length (rows ?F) div nat 2)) (rows ?F))).
          count_list (map fst scores) f = 1"
    by blast
  with e have "count_list (map fst scores) ''e'' = 1" by blast
  with \<open>sorted_scores ?par _ _ _ 2 _ _ = Inr scores\<close> \<open>sorted_scores ?par _ _ _ 1 _ _ = Inr sequential\<close>
    \<open>mset scores = mset sequential\<close> \<open>map_of scores = map_of sequential\<close> d w
  show ?thesis by blast
qed

section \<open>The guard of the alignment\<close>

text \<open>
  Claim C6 (zero shared columns). The claim: the run raises the zero-shared-columns
  error if and only if target and features share no sample identifier. The guard of the
  source is \<open>any(shared)\<close>, which is false as well when every shared identifier is falsy.
  Here target and features share sample \<open>0\<close>, and the run raises.
\<close>

theorem align_raises_despite_shared_sample:
  "index_intersection (map fst [(IntLabel 0, 5::int), (IntLabel 1, 4)]) [IntLabel 0, IntLabel 2] = [IntLabel 0]
   \<and> make_association_panel ext information_coefficient [(IntLabel 0, 5::int), (IntLabel 1, 4)]
        \<lparr>columns = [IntLabel 0, IntLabel 2], rows = [(''F1'', [1, 2]), (''F2'', [2, 1])]\<rparr>
        n_jobs features_ascending n_features n_samplings n_permutations
      = Inl InputMismatch"
  by (simp add: make_association_panel_def preprocess_def align_def index_intersection_def)

text \<open>
  Claim C3 (alignment). The claim: whenever target and features share a sample
  identifier, both are restricted to the shared identifiers, the target sorted
  descending and the feature columns put in the target's order. Here they share sample
  \<open>0\<close>, the restricted target would be the one entry under \<open>0\<close>, and alignment raises
  instead. (Lemma \<open>align_truthy\<close> above is the alignment the claim describes, for the
  inputs that pass the guard.)
\<close>

theorem align_gives_no_aligned_target:
  "ix_series [(IntLabel 3, 2::int), (IntLabel 0, 7)]
      (index_intersection (map fst [(IntLabel 3, 2::int), (IntLabel 0, 7)]) [IntLabel 0, IntLabel 5])
     = [(IntLabel 0, 7)]
   \<and> align [(IntLabel 3, 2::int), (IntLabel 0, 7)]
        \<lparr>columns = [IntLabel 0, IntLabel 5], rows = [(''F1'', [1::int, 2])]\<rparr>
      = Inl InputMismatch"
  by (simp add: align_def index_intersection_def ix_series_def)

lemma align_empty_intersection:
  "index_intersection (map fst target) (columns features) = [] \<Longrightarrow> align target features = Inl InputMismatch"
  by (simp add: align_def)

lemma align_error_is_mismatch:
  "align target features = Inl e \<Longrightarrow> e = InputMismatch"
  by (auto simp: align_def Let_def split: if_splits)

lemma ix_series_nonempty:
  assumes "l \<in> set labels" and "l \<in> fst ` set s"
  shows "ix_series s labels \<noteq> []"
proof -
  from assms(2) obtain kv where "kv \<in> set s" "fst kv = l" by auto
  then have "filter (\<lambda>kv. fst kv = l) s \<noteq> []" by (auto simp: filter_empty_conv)
  with assms(1) show ?thesis by (auto simp: ix_series_def)
qed

lemma ix_series_keys: "fst ` set (ix_series s labels) \<subseteq> set labels \<inter> fst ` set s"
  by (auto simp: ix_series_def)

lemma align_columns_nonempty:
  assumes "align target features = Inr (target', features')"
  shows "columns features' \<noteq> []" and "map fst (rows features') = map fst (rows features)"
proof -
  define shared where "shared = index_intersection (map fst target) (columns features)"
  from assms have tr: "list_ex truthy shared"
    and t': "target' = sort_values_desc (ix_series target shared)"
    and f': "features' = ix_columns features (map fst target')"
    by (auto simp: align_def Let_def shared_def split: if_splits)
  from tr obtain l where l: "l \<in> set shared" by (auto simp: list_ex_iff)
  then have "l \<in> fst ` set target" by (auto simp: shared_def index_intersection_def)
  with l have "ix_series target shared \<noteq> []" by (rule ix_series_nonempty)
  then have "target' \<noteq> []"
    by (metis t' sort_values_desc_mset mset_zero_iff)
  then obtain kv where kv: "kv \<in> set target'" by (cases target') auto
  then have "kv \<in> set (ix_series target shared)"
    by (metis t' sort_values_desc_mset mset_eq_setD)
  then have "fst kv \<in> set shared" using ix_series_keys [of target shared] by auto
  then have "fst kv \<in> set (columns features)" by (simp add: shared_def index_intersection_def)
  then have "fst kv \<in> fst ` set (zip (columns features) (columns features))"
    by (metis map_fst_zip set_map)
  moreover from kv have "fst kv \<in> set (map fst target')" by simp
  ultimately have "ix_series (zip (columns features) (columns features)) (map fst target') \<noteq> []"
    by (rule ix_series_nonempty [rotated])
  then show "columns features' \<noteq> []" by (simp add: f' ix_columns_def)
  show "map fst (rows features') = map fst (rows features)"
    by (simp add: f' ix_columns_def comp_def)
qed


section \<open>Degenerate features\<close>

lemma associate_score_rows:
  assumes "associate ext target features function n_jobs features_ascending n_features min_n_per_job
             n_samplings confidence n_permutations = Inr res"
  shows "sorted_scores (ext_parallelize_score ext) target features function n_jobs features_ascending
             min_n_per_job = Inr (score_rows res)"
proof (cases "sorted_scores (ext_parallelize_score ext) target features function n_jobs features_ascending
             min_n_per_job")
  case (Inl e)
  with assms show ?thesis by (simp add: associate_def)
next
  case (Inr scores)
  with assms have "score_rows res = scores"
    by (simp add: associate_def split: sum.splits) (metis score_table.select_convs(1))
  with Inr show ?thesis by simp
qed

lemma sorted_scores_ids:
  fixes features :: "('f, 'v) frame"
  assumes "distinct (map fst (rows features))" and "1 \<le> n_jobs"
    and "\<And>args. mset (parallelize p_score args n_jobs) = mset (map p_score args)"
    and res: "sorted_scores parallelize target features function n_jobs features_ascending min_n_per_job
              = Inr scores"
  shows "mset (map fst scores) = mset (map fst (rows features))"
proof -
  have "\<exists>raw. score_stage parallelize target features function n_jobs min_n_per_job = Inr raw
          \<and> mset raw = mset (p_score (target, features, function))"
    using assms(1-3) by (rule score_stage_mset)
  then obtain raw where raw: "score_stage parallelize target features function n_jobs min_n_per_job = Inr raw"
    and m: "mset raw = mset (p_score (target, features, function))" by blast
  from res raw have "scores = sort_by_score features_ascending raw"
    by (simp add: sorted_scores_def)
  then have "mset (map fst scores) = mset (map fst raw)"
    by (simp add: sort_by_score_mset)
  also from m have "\<dots> = mset (map fst (p_score (target, features, function)))"
    by (metis mset_map)
  also have "map fst (p_score (target, features, function)) = map fst (rows features)"
    by (simp add: p_score_def comp_def)
  finally show ?thesis .
qed

text \<open>
  Claim C5 (degenerate features). Once alignment has succeeded, with unique feature
  identifiers: if no aligned row has two distinct values, the run fails with
  \<open>NoViableFeatures\<close>, whatever the scoring function; otherwise, in every table the run
  returns, an aligned row's identifier occurs exactly when the row has at least two
  distinct values.
\<close>

theorem degenerate_features_dropped:
  fixes features :: "('f, 'v::linorder) frame"
  assumes al: "align target features = Inr (target', features')"
    and ids: "distinct (map fst (rows features))"
    and w: "1 \<le> n_jobs"
    and par: "\<And>args. mset (ext_parallelize_score ext p_score args n_jobs) = mset (map p_score args)"
  shows "(if \<forall>r \<in> set (rows features'). n_unique (snd r) < 2
          then make_association_panel ext information_coefficient target features n_jobs
                 features_ascending n_features n_samplings n_permutations = Inl NoViableFeatures
          else \<forall>res. make_association_panel ext information_coefficient target features n_jobs
                 features_ascending n_features n_samplings n_permutations = Inr res
               \<longrightarrow> (\<forall>r \<in> set (rows features').
                      (fst r \<in> set (map fst (score_rows res))) = (2 \<le> n_unique (snd r))))"
proof -
  define kept where "kept = filter (\<lambda>r. n_unique (snd r) \<ge> min_n_unique_values) (rows features')"
  have cols: "columns features' \<noteq> []" and rid: "map fst (rows features') = map fst (rows features)"
    using al by (rule align_columns_nonempty)+
  from ids rid have d': "distinct (map fst (rows features'))" by simp
  show ?thesis
  proof (cases "\<forall>r \<in> set (rows features'). n_unique (snd r) < 2")
    case True
    then have "kept = []" by (auto simp: kept_def min_n_unique_values_def filter_empty_conv)
    then have "drop_degenerate features' = Inl NoViableFeatures"
      by (simp add: drop_degenerate_def kept_def)
    with al True show ?thesis by (simp add: make_association_panel_def preprocess_def)
  next
    case False
    then have ne: "kept \<noteq> []"
      by (auto simp: kept_def min_n_unique_values_def filter_empty_conv not_less)
    with cols have dd: "drop_degenerate features' = Inr (features'\<lparr>rows := kept\<rparr>)"
      by (simp add: drop_degenerate_def kept_def)
    have dk: "distinct (map fst kept)" unfolding kept_def using d' by (rule distinct_map_filter)
    have "\<forall>r \<in> set (rows features').
            (fst r \<in> set (map fst (score_rows res))) = (2 \<le> n_unique (snd r))"
      if res: "make_association_panel ext information_coefficient target features n_jobs
                 features_ascending n_features n_samplings n_permutations = Inr res" for res
    proof
      fix r assume r: "r \<in> set (rows features')"
      from res al dd
      have "associate ext target' (features'\<lparr>rows := kept\<rparr>) information_coefficient n_jobs
              features_ascending n_features 100 n_samplings (95 / 100) n_permutations = Inr res"
        by (simp add: make_association_panel_def preprocess_def)
      then have "sorted_scores (ext_parallelize_score ext) target' (features'\<lparr>rows := kept\<rparr>)
              information_coefficient n_jobs features_ascending 100 = Inr (score_rows res)"
        by (rule associate_score_rows)
      moreover have "distinct (map fst (rows (features'\<lparr>rows := kept\<rparr>)))" using dk by simp
      ultimately have "mset (map fst (score_rows res)) = mset (map fst (rows (features'\<lparr>rows := kept\<rparr>)))"
        using sorted_scores_ids [of "features'\<lparr>rows := kept\<rparr>" n_jobs "ext_parallelize_score ext"
            target' information_coefficient features_ascending 100 "score_rows res"] w par
        by blast
      then have "set (map fst (score_rows res)) = set (map fst (rows (features'\<lparr>rows := kept\<rparr>)))"
        by (rule mset_eq_setD)
      then have "set (map fst (score_rows res)) = set (map fst kept)" by simp
      moreover have "(fst r \<in> set (map fst kept)) = (2 \<le> n_unique (snd r))"
      proof
        assume "fst r \<in> set (map fst kept)"
        then obtain r' where r': "r' \<in> set kept" "fst r' = fst r" by auto
        then have "r' \<in> set (rows features')" by (simp add: kept_def)
        with r r' d' have "r' = r" by (metis distinct_map inj_onD)
        with r' show "2 \<le> n_unique (snd r)" by (simp add: kept_def min_n_unique_values_def)
      next
        assume "2 \<le> n_unique (snd r)"
        with r have "r \<in> set kept" by (simp add: kept_def min_n_unique_values_def)
        then show "fst r \<in> set (map fst kept)" by simp
      qed
      ultimately show "(fst r \<in> set (map fst (score_rows res))) = (2 \<le> n_unique (snd r))" by simp
    qed
    then have else_branch:
      "\<forall>res. make_association_panel ext information_coefficient target features n_jobs
                 features_ascending n_features n_samplings n_permutations = Inr res
               \<longrightarrow> (\<forall>r \<in> set (rows features').
                      (fst r \<in> set (map fst (score_rows res))) = (2 \<le> n_unique (snd r)))"
      by blast
    show ?thesis unfolding if_not_P [OF False] by (rule else_branch)
  qed
qed

lemma example_align:
  "align example_target example_features =
     Inr ([(IntLabel 1, 5), (IntLabel 2, 4), (IntLabel 3, 3), (IntLabel 4, 1)],
          \<lparr>columns = [IntLabel 1, IntLabel 2, IntLabel 3, IntLabel 4],
           rows = [(''F1'', [5, 4, 3, 1]), (''F2'', [7, 7, 7, 7]), (''F3'', [1, 2, 3, 4])]\<rparr>)"
  by (simp add: example_target_def example_features_def align_def index_intersection_def
      ix_series_def sort_values_desc_def ix_columns_def)

lemma example_preprocess:
  "preprocess example_target example_features =
     Inr ([(IntLabel 1, 5), (IntLabel 2, 4), (IntLabel 3, 3), (IntLabel 4, 1)],
          \<lparr>columns = [IntLabel 1, IntLabel 2, IntLabel 3, IntLabel 4],
           rows = [(''F1'', [5, 4, 3, 1]), (''F3'', [1, 2, 3, 4])]\<rparr>)"
  by (simp add: preprocess_def example_align drop_degenerate_def n_unique_def min_n_unique_values_def)

lemma example_panel:
  "make_association_panel example_externals example_scorer example_target example_features
       1 False (FloatN (95 / 100)) 1 0
   = Inr \<lparr>score_rows = [(''F1'', 51), (''F3'', 26)], moe_column = None, p_value_columns = None\<rparr>"
  by (simp add: make_association_panel_def example_preprocess associate_def sorted_scores_def
      score_stage_def p_score_def sort_by_score_def bootstrap_stage_def permutation_stage_def
      example_scorer_def)

theorem degenerate_features_dropped_witness:
  "align example_target example_features =
     Inr ([(IntLabel 1, 5), (IntLabel 2, 4), (IntLabel 3, 3), (IntLabel 4, 1)],
          \<lparr>columns = [IntLabel 1, IntLabel 2, IntLabel 3, IntLabel 4],
           rows = [(''F1'', [5, 4, 3, 1]), (''F2'', [7, 7, 7, 7]), (''F3'', [1, 2, 3, 4])]\<rparr>)
   \<and> distinct (map fst (rows example_features))
   \<and> (1::int) \<le> 1
   \<and> make_association_panel example_externals example_scorer example_target example_features
       1 False (FloatN (95 / 100)) 1 0
      = Inr \<lparr>score_rows = [(''F1'', 51), (''F3'', 26)], moe_column = None, p_value_columns = None\<rparr>
   \<and> (''F1'' \<in> set (map fst [(''F1'', 51::real), (''F3'', 26)])) = (2 \<le> n_unique [5, 4, 3, 1::int])
   \<and> (''F2'' \<in> set (map fst [(''F1'', 51::real), (''F3'', 26)])) = (2 \<le> n_unique [7, 7, 7, 7::int])
   \<and> (''F3'' \<in> set (map fst [(''F1'', 51::real), (''F3'', 26)])) = (2 \<le> n_unique [1, 2, 3, 4::int])
   \<and> make_association_panel example_externals example_scorer example_target
        \<lparr>columns = [IntLabel 3, IntLabel 1, IntLabel 2, IntLabel 4], rows = [(''F2'', [7, 7, 7, 7])]\<rparr>
        1 False (FloatN (95 / 100)) 1 0
      = Inl NoViableFeatures"
proof -
  let ?F' = "\<lparr>columns = [IntLabel 1, IntLabel 2, IntLabel 3, IntLabel 4],
           rows = [(''F1'', [5, 4, 3, 1]), (''F2'', [7, 7, 7, 7]), (''F3'', [1, 2, 3, 4::int])]\<rparr>"
  let ?res = "\<lparr>score_rows = [(''F1'', 51::real), (''F3'', 26)], moe_column = None, p_value_columns = None\<rparr>"
  have d: "distinct (map fst (rows example_features))" by (simp add: example_features_def)
  have w: "(1::int) \<le> 1" by simp
  have p: "\<And>args. mset (ext_parallelize_score example_externals p_score args 1) = mset (map p_score args)"
    by (simp add: example_externals_def)
  have nd: "\<not> (\<forall>r \<in> set (rows ?F'). n_unique (snd r) < 2)" by (simp add: n_unique_def)
  from degenerate_features_dropped [OF example_align d w p, of example_scorer False "FloatN (95 / 100)" 1 0]
  have "\<forall>res. make_association_panel example_externals example_scorer example_target example_features
                 1 False (FloatN (95 / 100)) 1 0 = Inr res
               \<longrightarrow> (\<forall>r \<in> set (rows ?F').
                      (fst r \<in> set (map fst (score_rows res))) = (2 \<le> n_unique (snd r)))"
    unfolding if_not_P [OF nd] .
  with example_panel
  have "\<forall>r \<in> set (rows ?F'). (fst r \<in> set (map fst (score_rows ?res))) = (2 \<le> n_unique (snd r))"
    by blast
  then have "(''F1'' \<in> set (map fst [(''F1'', 51::real), (''F3'', 26)])) = (2 \<le> n_unique [5, 4, 3, 1::int])"
     and "(''F2'' \<in> set (map fst [(''F1'', 51::real), (''F3'', 26)])) = (2 \<le> n_unique [7, 7, 7, 7::int])"
     and "(''F3'' \<in> set (map fst [(''F1'', 51::real), (''F3'', 26)])) = (2 \<le> n_unique [1, 2, 3, 4::int])"
    by simp_all
  note kept = this
  let ?G = "\<lparr>columns = [IntLabel 3, IntLabel 1, IntLabel 2, IntLabel 4],
            rows = [(''F2'', [7, 7, 7, 7::int])]\<rparr>"
  let ?G' = "\<lparr>columns = [IntLabel 1, IntLabel 2, IntLabel 3, IntLabel 4],
            rows = [(''F2'', [7, 7, 7, 7::int])]\<rparr>"
  have alG: "align example_target ?G
             = Inr ([(IntLabel 1, 5), (IntLabel 2, 4), (IntLabel 3, 3), (IntLabel 4, 1)], ?G')"
    by (simp add: example_target_def align_def index_intersection_def ix_series_def
        sort_values_desc_def ix_columns_def)
  have dG: "distinct (map fst (rows ?G))" by simp
  have deg: "\<forall>r \<in> set (rows ?G'). n_unique (snd r) < 2" by (simp add: n_unique_def)
  from degenerate_features_dropped [OF alG dG w p, of example_scorer False "FloatN (95 / 100)" 1 0]
  have none: "make_association_panel example_externals example_scorer example_target ?G
                1 False (FloatN (95 / 100)) 1 0 = Inl NoViableFeatures"
    unfolding if_P [OF deg] .
  from example_align d w example_panel kept none show ?thesis by blast
qed

section \<open>The permutation loop\<close>

lemma shuffled_targets_length: "length (shuffled_targets shuffle t ps) = length ps"
  by (induction ps arbitrary: t) simp_all

lemma shuffled_targets_mset:
  assumes "\<And>p xs. mset (shuffle p xs) = mset xs"
  shows "x \<in> set (shuffled_targets shuffle t ps) \<Longrightarrow> mset x = mset t"
proof (induction ps arbitrary: t)
  case Nil
  then show ?case by simp
next
  case (Cons p ps)
  then show ?case using assms by (metis set_ConsD shuffled_targets.simps(2))
qed

lemma map2_keep:
  "length xs = length ys \<Longrightarrow> map2 (\<lambda>s r. s) xs ys = xs"
  by (induction xs ys rule: list_induct2) simp_all

lemma map2_append_round:
  "length xs = length ys \<Longrightarrow>
   map2 (\<lambda>s r. (fst s, snd s @ F r)) (map2 (\<lambda>s c. (fst s, snd s @ [c])) xs (map G ys)) ys
   = map2 (\<lambda>s r. (fst s, snd s @ G r # F r)) xs ys"
  by (induction xs ys rule: list_induct2) simp_all

lemma permute_rounds_eq:
  assumes "a < length h" and "length scores = length (rows f)"
  shows "permute_rounds shuffle f func a ps (h, scores)
         = (h[a := last (h ! a # shuffled_targets shuffle (h ! a) ps)],
            map2 (\<lambda>s r. (fst s, snd s @ map (\<lambda>x. func x (snd r)) (shuffled_targets shuffle (h ! a) ps)))
                 scores (rows f))"
  using assms
proof (induction ps arbitrary: h scores)
  case Nil
  then show ?case by (simp add: map2_keep)
next
  case (Cons p ps)
  define h' where "h' = h[a := shuffle p (h ! a)]"
  define col where "col = map (\<lambda>r. func (h' ! a) (snd r)) (rows f)"
  define scores' where "scores' = map2 (\<lambda>s c. (fst s, snd s @ [c])) scores col"
  have a': "a < length h'" and ha: "h' ! a = shuffle p (h ! a)"
    using Cons.prems by (simp_all add: h'_def)
  have len': "length scores' = length (rows f)"
    using Cons.prems by (simp add: scores'_def col_def)
  have step: "permute_rounds shuffle f func a (p # ps) (h, scores)
              = permute_rounds shuffle f func a ps (h', scores')"
    by (simp add: Let_def h'_def col_def scores'_def)
  have upd: "h'[a := last (h' ! a # shuffled_targets shuffle (h' ! a) ps)]
             = h[a := last (h ! a # shuffled_targets shuffle (h ! a) (p # ps))]"
    by (simp add: h'_def ha [unfolded h'_def])
  have rows_eq: "map2 (\<lambda>s r. (fst s, snd s @ map (\<lambda>x. func x (snd r)) (shuffled_targets shuffle (h' ! a) ps)))
                   scores' (rows f)
      = map2 (\<lambda>s r. (fst s, snd s @ map (\<lambda>x. func x (snd r)) (shuffled_targets shuffle (h ! a) (p # ps))))
                   scores (rows f)"
    unfolding scores'_def col_def ha using Cons.prems(2)
    by (simp add: map2_append_round)
  from Cons.IH [OF a' len'] step upd rows_eq show ?case by simp
qed


lemma p_permute_and_score_eq:
  assumes "t < length h"
  shows "p_permute_and_score shuffle h (t, f, func, n_perms)
         = (h @ [last (h ! t # shuffled_targets shuffle (h ! t) [0..<nat n_perms])],
            map (\<lambda>r. (fst r, map (\<lambda>x. func x (snd r)) (shuffled_targets shuffle (h ! t) [0..<nat n_perms])))
                (rows f))"
proof -
  have "map2 (\<lambda>s r. (fst s, snd s @ F r)) (map (\<lambda>r. (fst r, [])) rs) rs = map (\<lambda>r. (fst r, F r)) rs"
    for F :: "'c \<times> 'a list \<Rightarrow> real list" and rs
    by (induction rs) simp_all
  then show ?thesis
    using assms by (simp add: p_permute_and_score_def Let_def permute_rounds_eq nth_append)
qed

text \<open>
  Claim C9 (permuted targets, input target untouched). For a shuffle that permutes its
  array and a target stored at address \<open>t\<close>: \<open>_permute_and_score\<close> scores every
  feature row, in each of the \<open>n_perms\<close> rounds, against that round's shuffled array,
  and each of these arrays has the same multiset of values as the target; the arrays that
  existed before the call, the target among them, hold afterwards the values they held,
  in the same order.
\<close>

theorem permutation_leaves_target:
  assumes perm: "\<And>p xs. mset (shuffle p xs) = mset xs" and t: "t < length h"
  shows "snd (p_permute_and_score shuffle h (t, f, func, n_perms))
           = map (\<lambda>r. (fst r, map (\<lambda>shuffled_target. func shuffled_target (snd r))
                                  (shuffled_targets shuffle (h ! t) [0..<nat n_perms])))
                 (rows f)
       \<and> length (shuffled_targets shuffle (h ! t) [0..<nat n_perms]) = nat n_perms
       \<and> (\<forall>x \<in> set (shuffled_targets shuffle (h ! t) [0..<nat n_perms]). mset x = mset (h ! t))
       \<and> take (length h) (fst (p_permute_and_score shuffle h (t, f, func, n_perms))) = h
       \<and> fst (p_permute_and_score shuffle h (t, f, func, n_perms)) ! t = h ! t"
proof -
  let ?ts = "shuffled_targets shuffle (h ! t) [0..<nat n_perms]"
  have a: "snd (p_permute_and_score shuffle h (t, f, func, n_perms))
             = map (\<lambda>r. (fst r, map (\<lambda>shuffled_target. func shuffled_target (snd r)) ?ts)) (rows f)"
    using t by (simp add: p_permute_and_score_eq)
  have b: "length ?ts = nat n_perms" by (simp add: shuffled_targets_length)
  have c: "\<forall>x \<in> set ?ts. mset x = mset (h ! t)"
    using shuffled_targets_mset [of shuffle] perm by blast
  have d: "take (length h) (fst (p_permute_and_score shuffle h (t, f, func, n_perms))) = h"
    using t by (simp add: p_permute_and_score_eq)
  have e: "fst (p_permute_and_score shuffle h (t, f, func, n_perms)) ! t = h ! t"
    using t by (simp add: p_permute_and_score_eq nth_append)
  from a b c d e show ?thesis by blast
qed

lemma permute_and_score_of_eq:
  "permute_and_score_of shuffle (target, f, func, n_perms)
   = map (\<lambda>r. (fst r, map (\<lambda>x. func x (snd r)) (shuffled_targets shuffle (map snd target) [0..<nat n_perms])))
         (rows f)"
  by (simp add: permute_and_score_of_def p_permute_and_score_eq)

lemma resample_size_4: "resample_size (Suc (Suc (Suc (Suc 0)))) = 3"
  by (simp add: resample_size_def)

text \<open>
  Claim C10 (argument order). The scoring stage and the permutation stage call the
  scoring function with the target (or the shuffled target) first and the feature row
  second; the bootstrap stage calls it with the resampled feature row first and the
  resampled target second. For a symmetric function the bootstrap scores are those of the
  other argument order as well; for some function and input they are not.
\<close>

theorem scoring_argument_order:
  fixes features :: "('f, 'v) frame" and func :: "'v scorer"
  shows "p_score (target, features, func)
           = map (\<lambda>r. (fst r, func (map snd target) (snd r))) (rows features)
       \<and> permute_and_score_of shuffle (target, features, func, n_permutations)
           = map (\<lambda>r. (fst r, map (\<lambda>shuffled_target. func shuffled_target (snd r))
                                  (shuffled_targets shuffle (map snd target) [0..<nat n_permutations])))
                 (rows features)
       \<and> sampled_scores choice target features func idx n_samplings
           = map (\<lambda>r. (fst r,
                    map (\<lambda>c_i. func
                           (map snd (ix_series (zip (columns features) (snd r))
                              (choice c_i (columns features) (resample_size (length (columns features))))))
                           (map snd (ix_series target
                              (choice c_i (columns features) (resample_size (length (columns features)))))))
                        [0..<nat n_samplings]))
                 (rows (ix_rows features idx))
       \<and> ((\<forall>a b. func a b = func b a) \<longrightarrow>
            sampled_scores choice target features func idx n_samplings
            = sampled_scores choice target features (\<lambda>a b. func b a) idx n_samplings)
       \<and> (\<exists>(g :: int scorer) ch tg (fs :: (string, int) frame) ix.
            sampled_scores ch tg fs g ix 1 \<noteq> sampled_scores ch tg fs (\<lambda>a b. g b a) ix 1)"
proof -
  have a: "p_score (target, features, func)
           = map (\<lambda>r. (fst r, func (map snd target) (snd r))) (rows features)"
    by (simp add: p_score_def)
  have b: "permute_and_score_of shuffle (target, features, func, n_permutations)
           = map (\<lambda>r. (fst r, map (\<lambda>shuffled_target. func shuffled_target (snd r))
                                  (shuffled_targets shuffle (map snd target) [0..<nat n_permutations])))
                 (rows features)"
    by (rule permute_and_score_of_eq)
  have c: "sampled_scores choice target features func idx n_samplings
           = map (\<lambda>r. (fst r,
                    map (\<lambda>c_i. func
                           (map snd (ix_series (zip (columns features) (snd r))
                              (choice c_i (columns features) (resample_size (length (columns features))))))
                           (map snd (ix_series target
                              (choice c_i (columns features) (resample_size (length (columns features)))))))
                        [0..<nat n_samplings]))
                 (rows (ix_rows features idx))"
    by (simp add: sampled_scores_def Let_def)
  have d: "(\<forall>a b. func a b = func b a) \<longrightarrow>
            sampled_scores choice target features func idx n_samplings
            = sampled_scores choice target features (\<lambda>a b. func b a) idx n_samplings"
  proof
    assume "\<forall>a b. func a b = func b a"
    then have "func = (\<lambda>a b. func b a)" by (intro ext) simp
    then show "sampled_scores choice target features func idx n_samplings
            = sampled_scores choice target features (\<lambda>a b. func b a) idx n_samplings"
      by simp
  qed
  let ?g = "\<lambda>(a :: int list) (b :: int list). real_of_int (sum_list a)"
  let ?ch = "\<lambda>(c :: nat) (pop :: label list) k. take k pop"
  let ?tg = "[(IntLabel 1, 5), (IntLabel 2, 4), (IntLabel 3, 3), (IntLabel 4, 1 :: int)]"
  let ?fs = "\<lparr>columns = [IntLabel 1, IntLabel 2, IntLabel 3, IntLabel 4],
              rows = [(''F1'', [5, 4, 3, 1]), (''F3'', [1, 2, 3, 4 :: int])]\<rparr>"
  have l: "sampled_scores ?ch ?tg ?fs ?g [''F3''] 1 = [(''F3'', [6])]"
    by (simp add: sampled_scores_def resample_size_4 ix_rows_def ix_series_def)
  have r: "sampled_scores ?ch ?tg ?fs (\<lambda>a b. ?g b a) [''F3''] 1 = [(''F3'', [12])]"
    by (simp add: sampled_scores_def resample_size_4 ix_rows_def ix_series_def)
  have "sampled_scores ?ch ?tg ?fs ?g [''F3''] 1 \<noteq> sampled_scores ?ch ?tg ?fs (\<lambda>a b. ?g b a) [''F3''] 1"
    unfolding l r by simp
  then have e: "\<exists>(g :: int scorer) ch tg (fs :: (string, int) frame) ix.
            sampled_scores ch tg fs g ix 1 \<noteq> sampled_scores ch tg fs (\<lambda>a b. g b a) ix 1"
    by blast
  from a b c d e show ?thesis by blast
qed

section \<open>P-values and false discovery rates\<close>

lemma associate_p_columns:
  assumes "associate ext target features function n_jobs features_ascending n_features min_n_per_job
             n_samplings confidence n_permutations = Inr res"
  shows "permutation_stage (ext_parallelize_permute ext) (ext_shuffle ext) target features function
           (score_rows res) n_jobs min_n_per_job n_permutations = Inr (p_value_columns res)"
proof -
  from assms obtain scores ci pcols where
    "sorted_scores (ext_parallelize_score ext) target features function n_jobs features_ascending
             min_n_per_job = Inr scores"
    "bootstrap_stage (ext_choice ext) (ext_norm_ppf ext) target features function scores n_features
                  n_samplings confidence = Inr ci"
    "permutation_stage (ext_parallelize_permute ext) (ext_shuffle ext) target features function
                       scores n_jobs min_n_per_job n_permutations = Inr pcols"
    "res = \<lparr> score_rows = scores, moe_column = map_option (\<lambda>ci. map (\<lambda>r. map_of ci (fst r)) scores) ci,
             p_value_columns = pcols \<rparr>"
    by (auto simp: associate_def split: sum.splits)
  then show ?thesis by simp
qed

lemma permutation_stage_Some:
  assumes "permutation_stage parallelize shuffle target features function scores n_jobs min_n_per_job
             n_permutations = Inr (Some pc)"
  shows "1 \<le> n_permutations
       \<and> (\<exists>pm. null_scores parallelize shuffle target features function n_jobs min_n_per_job n_permutations
                 = Inr pm
              \<and> pc = p_values_and_fdrs pm n_permutations features scores)"
  using assms by (auto simp: permutation_stage_def split: if_splits sum.splits)

lemma length_minimum_accumulate_right: "length (minimum_accumulate_right xs) = length xs"
  by (induction xs rule: minimum_accumulate_right.induct) (simp_all add: Let_def)

lemma length_fdr_bh: "length (fdr_bh pvals) = length pvals"
  by (simp add: fdr_bh_def Let_def length_minimum_accumulate_right)

text \<open>
  Claim C4 (FDR columns). In a table returned with the permutation columns, the forward
  FDR column is \<open>fdr_bh\<close> of the p-values, the reverse one is \<open>fdr_bh\<close> of
  \<open>1 - p\<close>, every column has one entry per feature, and a feature's combined FDR is the
  minimum of its forward and reverse FDR, hence at most their maximum.
\<close>

theorem fdr_columns:
  assumes res: "associate ext target features function n_jobs features_ascending n_features
                  min_n_per_job n_samplings confidence n_permutations = Inr res"
    and pc: "p_value_columns res = Some pc"
  shows "fdr_forward pc = fdr_bh (p_value pc)
       \<and> fdr_reverse pc = fdr_bh (map (\<lambda>p. 1 - p) (p_value pc))
       \<and> length (p_value pc) = length (score_rows res)
       \<and> length (fdr_forward pc) = length (score_rows res)
       \<and> length (fdr_reverse pc) = length (score_rows res)
       \<and> length (fdr pc) = length (score_rows res)
       \<and> (\<forall>i < length (score_rows res).
             fdr pc ! i = min (fdr_forward pc ! i) (fdr_reverse pc ! i)
           \<and> fdr pc ! i \<le> max (fdr_forward pc ! i) (fdr_reverse pc ! i))"
proof -
  from res pc have "permutation_stage (ext_parallelize_permute ext) (ext_shuffle ext) target features
      function (score_rows res) n_jobs min_n_per_job n_permutations = Inr (Some pc)"
    by (simp add: associate_p_columns)
  then obtain pm where pc_eq: "pc = p_values_and_fdrs pm n_permutations features (score_rows res)"
    using permutation_stage_Some by blast
  define ps where "ps = p_values pm n_permutations features (score_rows res)"
  have p: "p_value pc = ps" and f: "fdr_forward pc = fdr_bh ps"
    and r: "fdr_reverse pc = fdr_bh (map (\<lambda>p. 1 - p) ps)"
    and m: "fdr pc = map2 min (fdr_bh ps) (fdr_bh (map (\<lambda>p. 1 - p) ps))"
    by (simp_all add: pc_eq p_values_and_fdrs_def Let_def ps_def)
  have lp: "length ps = length (score_rows res)" by (simp add: ps_def p_values_def)
  have lf: "length (fdr_bh ps) = length (score_rows res)"
    and lr: "length (fdr_bh (map (\<lambda>p. 1 - p) ps)) = length (score_rows res)"
    by (simp_all add: length_fdr_bh lp)
  have "fdr pc ! i = min (fdr_forward pc ! i) (fdr_reverse pc ! i)
      \<and> fdr pc ! i \<le> max (fdr_forward pc ! i) (fdr_reverse pc ! i)"
    if "i < length (score_rows res)" for i
    using that lf lr by (simp add: m f r)
  with p f r lp lf lr m show ?thesis by simp
qed


lemma p_value_of_cases:
  assumes "1 \<le> n_permutations" and "0 < n"
  shows "p_value_of pooled n_permutations n n score
         = (if length (filter (\<lambda>x. score < x) pooled) = 0
            then 1 / (real n * real_of_int n_permutations)
            else real (length (filter (\<lambda>x. score < x) pooled)) / (real n * real_of_int n_permutations))"
proof -
  from assms have pos: "0 < real n * real_of_int n_permutations" by simp
  have eq: "real_of_int (n_permutations * int n) = real n * real_of_int n_permutations" by simp
  show ?thesis
    unfolding p_value_of_def Let_def eq using pos by (auto simp: field_simps)
qed

lemma p_value_of_bounds:
  assumes "1 \<le> n_permutations" and "0 < n"
  shows "0 < p_value_of pooled n_permutations n n score"
    and "1 / (real n * real_of_int n_permutations) \<le> p_value_of pooled n_permutations n n score"
proof -
  from assms have pos: "0 < real n * real_of_int n_permutations" by simp
  let ?c = "length (filter (\<lambda>x. score < x) pooled)"
  show "1 / (real n * real_of_int n_permutations) \<le> p_value_of pooled n_permutations n n score"
  proof (cases "?c = 0")
    case True
    then show ?thesis unfolding p_value_of_cases [OF assms] by simp
  next
    case False
    then have "1 \<le> ?c" by (cases "filter (\<lambda>x. score < x) pooled") simp_all
    then have "1 \<le> real ?c" by linarith
    with pos have "1 / (real n * real_of_int n_permutations) \<le> real ?c / (real n * real_of_int n_permutations)"
      by (simp add: divide_right_mono)
    with False show ?thesis unfolding p_value_of_cases [OF assms] by simp
  qed
  moreover from pos have "0 < 1 / (real n * real_of_int n_permutations)" by simp
  ultimately show "0 < p_value_of pooled n_permutations n n score" by linarith
qed

lemma permute_and_score_of_concat:
  "concat (map (permute_and_score_of shuffle) (map (\<lambda>sf. (target, sf, function, n_permutations)) splits))
   = map (\<lambda>r. (fst r, map (\<lambda>x. function x (snd r))
                          (shuffled_targets shuffle (map snd target) [0..<nat n_permutations])))
         (concat (map rows splits))"
  by (induction splits) (simp_all add: permute_and_score_of_eq)

lemma null_scores_mset:
  fixes features :: "('f, 'v) frame"
  assumes ids: "distinct (map fst (rows features))"
    and w: "1 \<le> n_jobs"
    and par: "\<And>args. mset (parallelize (permute_and_score_of shuffle) args n_jobs)
                      = mset (map (permute_and_score_of shuffle) args)"
  shows "\<exists>pm. null_scores parallelize shuffle target features function n_jobs min_n_per_job
                 n_permutations = Inr pm
           \<and> mset pm = mset (permute_and_score_of shuffle (target, features, function, n_permutations))"
proof (cases "n_jobs = 1 \<or> int (length (rows features)) div n_jobs < min_n_per_job")
  case True
  with w show ?thesis by (auto simp: null_scores_def Let_def)
next
  case False
  define n_per_job where "n_per_job = int (length (rows features)) div n_jobs"
  define splits where "splits = split_features features n_jobs n_per_job"
  define args where "args = map (\<lambda>sf. (target, sf, function, n_permutations)) splits"
  define lo where "lo = leftovers features splits"
  define results where "results = parallelize (permute_and_score_of shuffle) args n_jobs"
  define k where "k = nat n_jobs * nat n_per_job"
  define sc where "sc = (\<lambda>r :: 'f \<times> 'v list.
      (fst r, map (\<lambda>x. function x (snd r)) (shuffled_targets shuffle (map snd target) [0..<nat n_permutations])))"
  from w have npj: "0 \<le> n_per_job" by (simp add: n_per_job_def pos_imp_zdiv_nonneg_iff)
  from False w have "splits \<noteq> []" by (simp add: splits_def split_features_def)
  then have "args \<noteq> []" by (simp add: args_def)
  moreover have mres: "mset results = mset (map (permute_and_score_of shuffle) args)"
    unfolding results_def by (rule par)
  ultimately have ne: "results \<noteq> []" by (metis mset_zero_iff map_is_Nil_conv)
  have "mset (concat results) = mset (concat (map (permute_and_score_of shuffle) args))"
    using mres by (rule mset_concat_cong)
  also have "concat (map (permute_and_score_of shuffle) args) = map sc (concat (map rows splits))"
    unfolding args_def sc_def by (rule permute_and_score_of_concat)
  also have "concat (map rows splits) = take k (rows features)"
    unfolding splits_def k_def using npj by (rule split_features_rows)
  finally have main: "mset (concat results) = mset (map sc (take k (rows features)))" .
  have lo_eq: "lo = map fst (drop k (rows features))"
    unfolding lo_def splits_def k_def using ids npj by (rule leftovers_distinct)
  have "set (drop k (rows features)) \<subseteq> set (rows features)" by (rule set_drop_subset)
  with ids have "ix_series (rows features) lo = drop k (rows features)"
    unfolding lo_eq by (rule ix_series_self)
  then have left: "permute_and_score_of shuffle (target, ix_rows features lo, function, n_permutations)
                   = map sc (drop k (rows features))"
    by (simp add: permute_and_score_of_eq ix_rows_def sc_def)
  have all: "permute_and_score_of shuffle (target, features, function, n_permutations)
             = map sc (rows features)"
    by (simp add: permute_and_score_of_eq sc_def)
  have split: "mset (map sc (rows features))
               = mset (map sc (take k (rows features))) + mset (map sc (drop k (rows features)))"
    by (metis append_take_drop_id map_append mset_append)
  have res: "null_scores parallelize shuffle target features function n_jobs min_n_per_job n_permutations
        = Inr (if lo \<noteq> []
               then concat results
                    @ permute_and_score_of shuffle (target, ix_rows features lo, function, n_permutations)
               else concat results)"
    using False w ne
    by (simp add: null_scores_def Let_def n_per_job_def [symmetric] splits_def [symmetric]
        args_def [symmetric] lo_def [symmetric] results_def [symmetric])
  show ?thesis
  proof (cases "lo = []")
    case True
    with lo_eq have "drop k (rows features) = []" by simp
    with split main all
    have "mset (concat results)
          = mset (permute_and_score_of shuffle (target, features, function, n_permutations))"
      by simp
    with res True show ?thesis by simp
  next
    case False
    from split main left all
    have "mset (concat results
                @ permute_and_score_of shuffle (target, ix_rows features lo, function, n_permutations))
          = mset (permute_and_score_of shuffle (target, features, function, n_permutations))" by simp
    with res False show ?thesis by simp
  qed
qed

lemma pooled_length_mset:
  "length (all_permutation_scores xs) = sum_mset (image_mset (\<lambda>r. length (snd r)) (mset xs))"
  by (induction xs) (simp_all add: all_permutation_scores_def)

lemma pooled_length_sequential:
  "length (all_permutation_scores (permute_and_score_of shuffle (target, features, function, n_permutations)))
   = length (rows features) * nat n_permutations"
proof -
  have "length (concat (map snd (map (\<lambda>r. (fst r, map (F r) ts)) rs))) = length rs * length ts"
    for F :: "'a \<times> 'b list \<Rightarrow> 'b list \<Rightarrow> real" and ts rs
    by (induction rs) simp_all
  then show ?thesis
    by (simp add: all_permutation_scores_def permute_and_score_of_eq shuffled_targets_length)
qed

lemma pooled_length:
  assumes "mset pm = mset (permute_and_score_of shuffle (target, features, function, n_permutations))"
  shows "length (all_permutation_scores pm) = length (rows features) * nat n_permutations"
proof -
  have "length (all_permutation_scores pm)
        = length (all_permutation_scores
            (permute_and_score_of shuffle (target, features, function, n_permutations)))"
    unfolding pooled_length_mset assms ..
  then show ?thesis by (simp only: pooled_length_sequential)
qed

text \<open>
  Claim C2 (p-value and its floor). With unique feature identifiers and a
  \<open>parallelize\<close> that returns the workers' results in any order: in a table returned
  with the permutation columns, \<open>n_permutations \<ge> 1\<close>, the pooled null scores are
  \<open>n * n_permutations\<close> values for \<open>n\<close> features, and the p-value of the feature in row
  \<open>i\<close> is the number of pooled values above its score over \<open>n * n_permutations\<close>, or
  \<open>1 / (n * n_permutations)\<close> when that number is zero. So it is positive and at least
  \<open>1 / (n * n_permutations)\<close>.
\<close>

theorem p_value_floor:
  fixes features :: "('f, 'v) frame"
  assumes ids: "distinct (map fst (rows features))"
    and w: "1 \<le> n_jobs"
    and par: "\<And>args. mset (ext_parallelize_score ext p_score args n_jobs) = mset (map p_score args)"
    and parp: "\<And>args. mset (ext_parallelize_permute ext (permute_and_score_of (ext_shuffle ext)) args n_jobs)
                       = mset (map (permute_and_score_of (ext_shuffle ext)) args)"
    and res: "associate ext target features function n_jobs features_ascending n_features
                min_n_per_job n_samplings confidence n_permutations = Inr res"
    and pc: "p_value_columns res = Some pc"
    and i: "i < length (score_rows res)"
  shows "\<exists>pm. null_scores (ext_parallelize_permute ext) (ext_shuffle ext) target features function
                 n_jobs min_n_per_job n_permutations = Inr pm
       \<and> 1 \<le> n_permutations
       \<and> length (all_permutation_scores pm) = length (rows features) * nat n_permutations
       \<and> length (p_value pc) = length (score_rows res)
       \<and> length (score_rows res) = length (rows features)
       \<and> p_value pc ! i
           = (if length (filter (\<lambda>x. snd (score_rows res ! i) < x) (all_permutation_scores pm)) = 0
              then 1 / (real (length (rows features)) * real_of_int n_permutations)
              else real (length (filter (\<lambda>x. snd (score_rows res ! i) < x) (all_permutation_scores pm)))
                   / (real (length (rows features)) * real_of_int n_permutations))
       \<and> 0 < p_value pc ! i
       \<and> 1 / (real (length (rows features)) * real_of_int n_permutations) \<le> p_value pc ! i"
proof -
  let ?n = "length (rows features)"
  from res pc have "permutation_stage (ext_parallelize_permute ext) (ext_shuffle ext) target features
      function (score_rows res) n_jobs min_n_per_job n_permutations = Inr (Some pc)"
    by (simp add: associate_p_columns)
  then obtain pm where P: "1 \<le> n_permutations"
    and pm: "null_scores (ext_parallelize_permute ext) (ext_shuffle ext) target features function
                 n_jobs min_n_per_job n_permutations = Inr pm"
    and pc_eq: "pc = p_values_and_fdrs pm n_permutations features (score_rows res)"
    using permutation_stage_Some by blast
  have "\<exists>pm. null_scores (ext_parallelize_permute ext) (ext_shuffle ext) target features function
                 n_jobs min_n_per_job n_permutations = Inr pm
           \<and> mset pm = mset (permute_and_score_of (ext_shuffle ext)
                               (target, features, function, n_permutations))"
    using ids w parp by (rule null_scores_mset)
  with pm have "mset pm = mset (permute_and_score_of (ext_shuffle ext)
                               (target, features, function, n_permutations))"
    by auto
  then have pool: "length (all_permutation_scores pm) = ?n * nat n_permutations"
    by (rule pooled_length)
  from res have "sorted_scores (ext_parallelize_score ext) target features function n_jobs
                   features_ascending min_n_per_job = Inr (score_rows res)"
    by (rule associate_score_rows)
  with ids w par have "mset (map fst (score_rows res)) = mset (map fst (rows features))"
    using sorted_scores_ids [of features n_jobs "ext_parallelize_score ext" target "function"
        features_ascending min_n_per_job "score_rows res"]
    by blast
  then have "length (map fst (score_rows res)) = length (map fst (rows features))"
    by (rule mset_eq_length)
  then have len: "length (score_rows res) = ?n" by simp
  with i have n: "0 < ?n" by linarith
  have pv: "p_value pc = p_values pm n_permutations features (score_rows res)"
    by (simp add: pc_eq p_values_and_fdrs_def Let_def)
  then have lp: "length (p_value pc) = length (score_rows res)" by (simp add: p_values_def)
  from pv i len have at: "p_value pc ! i
      = p_value_of (all_permutation_scores pm) n_permutations ?n ?n (snd (score_rows res ! i))"
    by (simp add: p_values_def)
  note c = p_value_of_cases [OF P n, of "all_permutation_scores pm" "snd (score_rows res ! i)"]
  note b = p_value_of_bounds [OF P n, of "all_permutation_scores pm" "snd (score_rows res ! i)"]
  from pm P pool lp len at c b show ?thesis by (intro exI [of _ pm]) (simp only: simp_thms)
qed

section \<open>The example run\<close>

lemma example_fdr_forward: "fdr_bh [1 / 4, 1] = [1 / 2, 1]"
  by (simp add: fdr_bh_def Let_def upt_rec)

lemma example_fdr_reverse: "fdr_bh [3 / 4, 0] = [3 / 4, 0]"
  by (simp add: fdr_bh_def Let_def upt_rec)

lemma example_null_scores:
  "permute_and_score_of (ext_shuffle example_externals)
     (example_aligned_target, example_kept_features, example_scorer, 2)
   = [(''F1'', [40, 38]), (''F3'', [33, 36])]"
  by (simp add: permute_and_score_of_eq example_externals_def example_aligned_target_def
      example_kept_features_def example_scorer_def upt_rec)

lemma example_p_values:
  "p_values [(''F1'', [40, 38]), (''F3'', [33, 36])] 2 example_kept_features [(''F1'', 51), (''F3'', 26)]
   = [1 / 4, 1]"
  by (simp add: p_values_def p_value_of_def all_permutation_scores_def example_kept_features_def)

lemma example_p_columns:
  "p_values_and_fdrs [(''F1'', [40, 38]), (''F3'', [33, 36])] 2 example_kept_features
     [(''F1'', 51), (''F3'', 26)]
   = \<lparr>p_value = [1 / 4, 1], fdr_forward = [1 / 2, 1], fdr_reverse = [3 / 4, 0], fdr = [1 / 2, 0]\<rparr>"
  by (simp add: p_values_and_fdrs_def example_p_values example_fdr_forward example_fdr_reverse)

lemma example_sorted_scores:
  "sorted_scores (ext_parallelize_score example_externals) example_aligned_target example_kept_features
     example_scorer 1 False 100 = Inr [(''F1'', 51), (''F3'', 26)]"
  by (simp add: sorted_scores_def score_stage_def p_score_def sort_by_score_def
      example_aligned_target_def example_kept_features_def example_scorer_def)

lemma example_associate:
  "associate example_externals example_aligned_target example_kept_features example_scorer
     1 False (FloatN (95 / 100)) 100 1 (95 / 100) 2
   = Inr \<lparr>score_rows = [(''F1'', 51), (''F3'', 26)], moe_column = None,
          p_value_columns = Some \<lparr>p_value = [1 / 4, 1], fdr_forward = [1 / 2, 1],
                                   fdr_reverse = [3 / 4, 0], fdr = [1 / 2, 0]\<rparr>\<rparr>"
  by (simp add: associate_def example_sorted_scores bootstrap_stage_def permutation_stage_def
      null_scores_def example_null_scores example_p_columns)


theorem p_value_floor_witness:
  "distinct (map fst (rows example_kept_features))
   \<and> (1::int) \<le> 1
   \<and> associate example_externals example_aligned_target example_kept_features example_scorer
     1 False (FloatN (95 / 100)) 100 1 (95 / 100) 2 = Inr \<lparr>score_rows = [(''F1'', 51), (''F3'', 26)], moe_column = None,
          p_value_columns = Some \<lparr>p_value = [1 / 4, 1], fdr_forward = [1 / 2, 1],
                                   fdr_reverse = [3 / 4, 0], fdr = [1 / 2, 0]\<rparr>\<rparr>
   \<and> (\<exists>pm. null_scores (ext_parallelize_permute example_externals) (ext_shuffle example_externals)
               example_aligned_target example_kept_features example_scorer 1 100 2 = Inr pm
          \<and> length (all_permutation_scores pm) = length (rows example_kept_features) * nat 2
          \<and> p_value \<lparr>p_value = [1 / 4, 1], fdr_forward = [1 / 2, 1], fdr_reverse = [3 / 4, 0], fdr = [1 / 2, 0]\<rparr> ! 0
              = (if length (filter (\<lambda>x. snd (score_rows \<lparr>score_rows = [(''F1'', 51), (''F3'', 26)], moe_column = None,
          p_value_columns = Some \<lparr>p_value = [1 / 4, 1], fdr_forward = [1 / 2, 1],
                                   fdr_reverse = [3 / 4, 0], fdr = [1 / 2, 0]\<rparr>\<rparr> ! 0) < x) (all_permutation_scores pm)) = 0
                 then 1 / (real (length (rows example_kept_features)) * real_of_int 2)
                 else real (length (filter (\<lambda>x. snd (score_rows \<lparr>score_rows = [(''F1'', 51), (''F3'', 26)], moe_column = None,
          p_value_columns = Some \<lparr>p_value = [1 / 4, 1], fdr_forward = [1 / 2, 1],
                                   fdr_reverse = [3 / 4, 0], fdr = [1 / 2, 0]\<rparr>\<rparr> ! 0) < x) (all_permutation_scores pm)))
                      / (real (length (rows example_kept_features)) * real_of_int 2))
          \<and> 0 < p_value \<lparr>p_value = [1 / 4, 1], fdr_forward = [1 / 2, 1], fdr_reverse = [3 / 4, 0], fdr = [1 / 2, 0]\<rparr> ! 0
          \<and> 1 / (real (length (rows example_kept_features)) * real_of_int 2) \<le> p_value \<lparr>p_value = [1 / 4, 1], fdr_forward = [1 / 2, 1], fdr_reverse = [3 / 4, 0], fdr = [1 / 2, 0]\<rparr> ! 0)"
proof -
  have d: "distinct (map fst (rows example_kept_features))" by (simp add: example_kept_features_def)
  have w: "(1::int) \<le> 1" by simp
  have p: "\<And>args. mset (ext_parallelize_score example_externals p_score args 1) = mset (map p_score args)"
    by (simp add: example_externals_def)
  have pp: "\<And>args. mset (ext_parallelize_permute example_externals
                          (permute_and_score_of (ext_shuffle example_externals)) args 1)
                   = mset (map (permute_and_score_of (ext_shuffle example_externals)) args)"
    by (simp add: example_externals_def)
  have pc: "p_value_columns \<lparr>score_rows = [(''F1'', 51), (''F3'', 26)], moe_column = None,
          p_value_columns = Some \<lparr>p_value = [1 / 4, 1], fdr_forward = [1 / 2, 1],
                                   fdr_reverse = [3 / 4, 0], fdr = [1 / 2, 0]\<rparr>\<rparr> = Some \<lparr>p_value = [1 / 4, 1], fdr_forward = [1 / 2, 1], fdr_reverse = [3 / 4, 0], fdr = [1 / 2, 0]\<rparr>" by simp
  have i: "0 < length (score_rows \<lparr>score_rows = [(''F1'', 51), (''F3'', 26)], moe_column = None,
          p_value_columns = Some \<lparr>p_value = [1 / 4, 1], fdr_forward = [1 / 2, 1],
                                   fdr_reverse = [3 / 4, 0], fdr = [1 / 2, 0]\<rparr>\<rparr>)" by simp
  from p_value_floor [OF d w p pp example_associate pc i]
  have "(\<exists>pm. null_scores (ext_parallelize_permute example_externals) (ext_shuffle example_externals)
               example_aligned_target example_kept_features example_scorer 1 100 2 = Inr pm
          \<and> length (all_permutation_scores pm) = length (rows example_kept_features) * nat 2
          \<and> p_value \<lparr>p_value = [1 / 4, 1], fdr_forward = [1 / 2, 1], fdr_reverse = [3 / 4, 0], fdr = [1 / 2, 0]\<rparr> ! 0
              = (if length (filter (\<lambda>x. snd (score_rows \<lparr>score_rows = [(''F1'', 51), (''F3'', 26)], moe_column = None,
          p_value_columns = Some \<lparr>p_value = [1 / 4, 1], fdr_forward = [1 / 2, 1],
                                   fdr_reverse = [3 / 4, 0], fdr = [1 / 2, 0]\<rparr>\<rparr> ! 0) < x) (all_permutation_scores pm)) = 0
                 then 1 / (real (length (rows example_kept_features)) * real_of_int 2)
                 else real (length (filter (\<lambda>x. snd (score_rows \<lparr>score_rows = [(''F1'', 51), (''F3'', 26)], moe_column = None,
          p_value_columns = Some \<lparr>p_value = [1 / 4, 1], fdr_forward = [1 / 2, 1],
                                   fdr_reverse = [3 / 4, 0], fdr = [1 / 2, 0]\<rparr>\<rparr> ! 0) < x) (all_permutation_scores pm)))
                      / (real (length (rows example_kept_features)) * real_of_int 2))
          \<and> 0 < p_value \<lparr>p_value = [1 / 4, 1], fdr_forward = [1 / 2, 1], fdr_reverse = [3 / 4, 0], fdr = [1 / 2, 0]\<rparr> ! 0
          \<and> 1 / (real (length (rows example_kept_features)) * real_of_int 2) \<le> p_value \<lparr>p_value = [1 / 4, 1], fdr_forward = [1 / 2, 1], fdr_reverse = [3 / 4, 0], fdr = [1 / 2, 0]\<rparr> ! 0)"
    by blast
  with d w example_associate show ?thesis by blast
qed

theorem fdr_columns_witness:
  "associate example_externals example_aligned_target example_kept_features example_scorer
     1 False (FloatN (95 / 100)) 100 1 (95 / 100) 2 = Inr \<lparr>score_rows = [(''F1'', 51), (''F3'', 26)], moe_column = None,
          p_value_columns = Some \<lparr>p_value = [1 / 4, 1], fdr_forward = [1 / 2, 1],
                                   fdr_reverse = [3 / 4, 0], fdr = [1 / 2, 0]\<rparr>\<rparr>
   \<and> fdr_forward \<lparr>p_value = [1 / 4, 1], fdr_forward = [1 / 2, 1], fdr_reverse = [3 / 4, 0], fdr = [1 / 2, 0]\<rparr> = fdr_bh (p_value \<lparr>p_value = [1 / 4, 1], fdr_forward = [1 / 2, 1], fdr_reverse = [3 / 4, 0], fdr = [1 / 2, 0]\<rparr>)
   \<and> fdr_reverse \<lparr>p_value = [1 / 4, 1], fdr_forward = [1 / 2, 1], fdr_reverse = [3 / 4, 0], fdr = [1 / 2, 0]\<rparr> = fdr_bh (map (\<lambda>p. 1 - p) (p_value \<lparr>p_value = [1 / 4, 1], fdr_forward = [1 / 2, 1], fdr_reverse = [3 / 4, 0], fdr = [1 / 2, 0]\<rparr>))
   \<and> fdr \<lparr>p_value = [1 / 4, 1], fdr_forward = [1 / 2, 1], fdr_reverse = [3 / 4, 0], fdr = [1 / 2, 0]\<rparr> ! 0 = min (fdr_forward \<lparr>p_value = [1 / 4, 1], fdr_forward = [1 / 2, 1], fdr_reverse = [3 / 4, 0], fdr = [1 / 2, 0]\<rparr> ! 0) (fdr_reverse \<lparr>p_value = [1 / 4, 1], fdr_forward = [1 / 2, 1], fdr_reverse = [3 / 4, 0], fdr = [1 / 2, 0]\<rparr> ! 0)
   \<and> fdr \<lparr>p_value = [1 / 4, 1], fdr_forward = [1 / 2, 1], fdr_reverse = [3 / 4, 0], fdr = [1 / 2, 0]\<rparr> ! 0 \<le> max (fdr_forward \<lparr>p_value = [1 / 4, 1], fdr_forward = [1 / 2, 1], fdr_reverse = [3 / 4, 0], fdr = [1 / 2, 0]\<rparr> ! 0) (fdr_reverse \<lparr>p_value = [1 / 4, 1], fdr_forward = [1 / 2, 1], fdr_reverse = [3 / 4, 0], fdr = [1 / 2, 0]\<rparr> ! 0)
   \<and> fdr \<lparr>p_value = [1 / 4, 1], fdr_forward = [1 / 2, 1], fdr_reverse = [3 / 4, 0], fdr = [1 / 2, 0]\<rparr> ! 1 = min (fdr_forward \<lparr>p_value = [1 / 4, 1], fdr_forward = [1 / 2, 1], fdr_reverse = [3 / 4, 0], fdr = [1 / 2, 0]\<rparr> ! 1) (fdr_reverse \<lparr>p_value = [1 / 4, 1], fdr_forward = [1 / 2, 1], fdr_reverse = [3 / 4, 0], fdr = [1 / 2, 0]\<rparr> ! 1)
   \<and> fdr \<lparr>p_value = [1 / 4, 1], fdr_forward = [1 / 2, 1], fdr_reverse = [3 / 4, 0], fdr = [1 / 2, 0]\<rparr> ! 1 \<le> max (fdr_forward \<lparr>p_value = [1 / 4, 1], fdr_forward = [1 / 2, 1], fdr_reverse = [3 / 4, 0], fdr = [1 / 2, 0]\<rparr> ! 1) (fdr_reverse \<lparr>p_value = [1 / 4, 1], fdr_forward = [1 / 2, 1], fdr_reverse = [3 / 4, 0], fdr = [1 / 2, 0]\<rparr> ! 1)"
proof -
  let ?res = "\<lparr>score_rows = [(''F1'', 51), (''F3'', 26)], moe_column = None,
          p_value_columns = Some \<lparr>p_value = [1 / 4, 1], fdr_forward = [1 / 2, 1],
                                   fdr_reverse = [3 / 4, 0], fdr = [1 / 2, 0]\<rparr>\<rparr>"
  let ?pc = "\<lparr>p_value = [1 / 4, 1], fdr_forward = [1 / 2, 1], fdr_reverse = [3 / 4, 0], fdr = [1 / 2, 0]\<rparr>"
  have pc: "p_value_columns ?res = Some ?pc" by simp
  note t = fdr_columns [OF example_associate pc]
  from t have a: "fdr_forward ?pc = fdr_bh (p_value ?pc)"
    and b: "fdr_reverse ?pc = fdr_bh (map (\<lambda>p. 1 - p) (p_value ?pc))"
    and c: "\<forall>i < length (score_rows ?res).
             fdr ?pc ! i = min (fdr_forward ?pc ! i) (fdr_reverse ?pc ! i)
           \<and> fdr ?pc ! i \<le> max (fdr_forward ?pc ! i) (fdr_reverse ?pc ! i)"
    by blast+
  have "(0::nat) < length (score_rows ?res)" and "(1::nat) < length (score_rows ?res)" by simp_all
  with c have "fdr ?pc ! 0 = min (fdr_forward ?pc ! 0) (fdr_reverse ?pc ! 0)
           \<and> fdr ?pc ! 0 \<le> max (fdr_forward ?pc ! 0) (fdr_reverse ?pc ! 0)"
    and "fdr ?pc ! 1 = min (fdr_forward ?pc ! 1) (fdr_reverse ?pc ! 1)
           \<and> fdr ?pc ! 1 \<le> max (fdr_forward ?pc ! 1) (fdr_reverse ?pc ! 1)"
    by blast+
  with a b example_associate show ?thesis by blast
qed

lemma example_shuffled_targets:
  "shuffled_targets (ext_shuffle example_externals) [5, 4, 3, 1 :: int] [0..<2] = [[4, 3, 1, 5], [3, 1, 5, 4]]"
  by (simp add: example_externals_def upt_rec)

theorem permutation_leaves_target_witness:
  "(0::nat) < length [[5, 4, 3, 1 :: int]]
   \<and> snd (p_permute_and_score (ext_shuffle example_externals) [[5, 4, 3, 1]]
            (0, example_kept_features, example_scorer, 2))
       = map (\<lambda>r. (fst r, map (\<lambda>shuffled_target. example_scorer shuffled_target (snd r))
                              [[4, 3, 1, 5], [3, 1, 5, 4]]))
             (rows example_kept_features)
   \<and> list_all (\<lambda>x. mset x = mset [5, 4, 3, 1 :: int]) [[4, 3, 1, 5], [3, 1, 5, 4]]
   \<and> take 1 (fst (p_permute_and_score (ext_shuffle example_externals) [[5, 4, 3, 1]]
                    (0, example_kept_features, example_scorer, 2)))
       = [[5, 4, 3, 1]]"
proof -
  have perm: "\<And>p xs. mset (ext_shuffle example_externals p xs) = mset (xs :: int list)"
  proof -
    fix p :: nat and xs :: "int list"
    show "mset (ext_shuffle example_externals p xs) = mset xs"
      by (cases xs) (simp_all add: example_externals_def)
  qed
  have t: "(0::nat) < length [[5, 4, 3, 1 :: int]]" by simp
  note inst = permutation_leaves_target [of "ext_shuffle example_externals" 0 "[[5, 4, 3, 1]]"
      example_kept_features example_scorer 2, OF perm t]
  from inst have a: "snd (p_permute_and_score (ext_shuffle example_externals) [[5, 4, 3, 1]]
            (0, example_kept_features, example_scorer, 2))
       = map (\<lambda>r. (fst r, map (\<lambda>shuffled_target. example_scorer shuffled_target (snd r))
                              [[4, 3, 1, 5], [3, 1, 5, 4]]))
             (rows example_kept_features)"
    by (simp add: example_shuffled_targets)
  from inst have "\<forall>x \<in> set (shuffled_targets (ext_shuffle example_externals) ([[5, 4, 3, 1 :: int]] ! 0) [0..<nat 2]).
                   mset x = mset ([[5, 4, 3, 1 :: int]] ! 0)"
    by blast
  then have b: "list_all (\<lambda>x. mset x = mset [5, 4, 3, 1 :: int]) [[4, 3, 1, 5], [3, 1, 5, 4]]"
    by (simp add: example_shuffled_targets)
  from inst have c: "take 1 (fst (p_permute_and_score (ext_shuffle example_externals) [[5, 4, 3, 1]]
                    (0, example_kept_features, example_scorer, 2)))
       = [[5, 4, 3, 1]]"
    by simp
  from t a b c show ?thesis by blast
qed

theorem scoring_argument_order_witness:
  "(\<forall>a b. (\<lambda>(a :: int list) (b :: int list). real_of_int (sum_list a + sum_list b)) a b
          = (\<lambda>(a :: int list) (b :: int list). real_of_int (sum_list a + sum_list b)) b a)
   \<and> sampled_scores (ext_choice example_externals) example_aligned_target example_kept_features
        (\<lambda>a b. real_of_int (sum_list a + sum_list b)) [''F1'', ''F3''] 2
     = sampled_scores (ext_choice example_externals) example_aligned_target example_kept_features
        (\<lambda>a b. (\<lambda>a b. real_of_int (sum_list a + sum_list b)) b a) [''F1'', ''F3''] 2"
proof -
  let ?sym = "\<lambda>(a :: int list) (b :: int list). real_of_int (sum_list a + sum_list b)"
  have s: "\<forall>a b. ?sym a b = ?sym b a" by (simp add: add.commute)
  from scoring_argument_order [of example_aligned_target example_kept_features ?sym
      "ext_shuffle example_externals" 2 "ext_choice example_externals" "[''F1'', ''F3'']" 2]
  have "(\<forall>a b. ?sym a b = ?sym b a) \<longrightarrow>
        sampled_scores (ext_choice example_externals) example_aligned_target example_kept_features
          ?sym [''F1'', ''F3''] 2
        = sampled_scores (ext_choice example_externals) example_aligned_target example_kept_features
          (\<lambda>a b. ?sym b a) [''F1'', ''F3''] 2"
    by blast
  with s show ?thesis by blast
qed

section \<open>The bootstrap stage\<close>

lemma indices_to_bootstrap_subset:
  assumes "indices_to_bootstrap n_features scores = Inr idx"
  shows "set idx \<subseteq> set (map fst scores)"
proof (cases "value_of n_features < 1")
  case True
  with assms show ?thesis
    by (auto simp: indices_to_bootstrap_def Let_def split: if_splits)
next
  case False
  show ?thesis
  proof (cases "2 * value_of n_features \<ge> real (length scores)")
    case True
    with False assms show ?thesis by (simp add: indices_to_bootstrap_def Let_def)
  next
    case ncover: False
    with False assms have
      "\<exists>n. idx = take (nat n) (map fst scores) @ drop (length scores - nat n) (map fst scores)"
      by (cases n_features) (auto simp: indices_to_bootstrap_def Let_def)
    then obtain n where
      "idx = take (nat n) (map fst scores) @ drop (length scores - nat n) (map fst scores)" ..
    then show ?thesis
      using set_take_subset [of "nat n" "map fst scores"]
        set_drop_subset [of "length scores - nat n" "map fst scores"]
      by auto
  qed
qed

lemma bootstrap_stage_skipped:
  "(bootstrap_stage choice norm_ppf target features function scores n_features n_samplings confidence
      = Inr None)
   = (n_samplings < 2 \<or> resample_size (length (columns features)) < 3 \<or> \<not> is_numeric n_features)"
  by (auto simp: bootstrap_stage_def Let_def split: sum.splits)

lemma bootstrap_stage_run:
  assumes "bootstrap_stage choice norm_ppf target features function scores n_features n_samplings
             confidence = Inr (Some ci)"
  shows "\<exists>idx. indices_to_bootstrap n_features scores = Inr idx
           \<and> map fst ci = map fst (ix_series (rows features) idx)"
  using assms
  by (auto simp: bootstrap_stage_def Let_def sampled_scores_def ix_rows_def comp_def
      split: sum.splits if_splits)

lemma associate_moe_column:
  assumes "associate ext target features function n_jobs features_ascending n_features min_n_per_job
             n_samplings confidence n_permutations = Inr res"
  shows "\<exists>ci. bootstrap_stage (ext_choice ext) (ext_norm_ppf ext) target features function
                 (score_rows res) n_features n_samplings confidence = Inr ci
            \<and> moe_column res = map_option (\<lambda>ci. map (\<lambda>r. map_of ci (fst r)) (score_rows res)) ci"
proof -
  from assms obtain scores ci pcols where
    "bootstrap_stage (ext_choice ext) (ext_norm_ppf ext) target features function scores n_features
                  n_samplings confidence = Inr ci"
    "res = \<lparr> score_rows = scores, moe_column = map_option (\<lambda>ci. map (\<lambda>r. map_of ci (fst r)) scores) ci,
             p_value_columns = pcols \<rparr>"
    by (auto simp: associate_def split: sum.splits)
  then show ?thesis by simp
qed


text \<open>
  Claim C8 (bootstrap skipped). With unique feature identifiers: when
  \<open>n_samplings < 2\<close>, or \<open>ceil(0.632 * m) < 3\<close> for \<open>m\<close> samples, or \<open>n_features\<close> is
  not a number, \<open>associate\<close> is the scoring stage followed by the permutation stage,
  with no margin-of-error column. In every table \<open>associate\<close> returns, the column is
  absent exactly under these conditions; when it is present, every feature selected for
  the bootstrap has a value in it.
\<close>

theorem bootstrap_skip_conditions:
  fixes features :: "('f, 'v) frame"
  assumes ids: "distinct (map fst (rows features))"
    and w: "1 \<le> n_jobs"
    and par: "\<And>args. mset (ext_parallelize_score ext p_score args n_jobs) = mset (map p_score args)"
  shows "((n_samplings < 2 \<or> resample_size (length (columns features)) < 3 \<or> \<not> is_numeric n_features)
          \<longrightarrow> associate ext target features function n_jobs features_ascending n_features
                 min_n_per_job n_samplings confidence n_permutations
               = (case sorted_scores (ext_parallelize_score ext) target features function n_jobs
                         features_ascending min_n_per_job of
                    Inl e \<Rightarrow> Inl e
                  | Inr scores \<Rightarrow>
                      (case permutation_stage (ext_parallelize_permute ext) (ext_shuffle ext) target
                              features function scores n_jobs min_n_per_job n_permutations of
                         Inl e \<Rightarrow> Inl e
                       | Inr pcols \<Rightarrow>
                           Inr \<lparr>score_rows = scores, moe_column = None, p_value_columns = pcols\<rparr>)))
       \<and> (\<forall>res. associate ext target features function n_jobs features_ascending n_features
                   min_n_per_job n_samplings confidence n_permutations = Inr res
            \<longrightarrow> ((moe_column res = None)
                  = (n_samplings < 2 \<or> resample_size (length (columns features)) < 3
                     \<or> \<not> is_numeric n_features))
              \<and> (\<not> (n_samplings < 2 \<or> resample_size (length (columns features)) < 3
                     \<or> \<not> is_numeric n_features)
                  \<longrightarrow> (\<exists>idx moe. indices_to_bootstrap n_features (score_rows res) = Inr idx
                        \<and> moe_column res = Some moe
                        \<and> length moe = length (score_rows res)
                        \<and> (\<forall>i < length (score_rows res).
                              fst (score_rows res ! i) \<in> set idx \<longrightarrow> (\<exists>v. moe ! i = Some v)))))"
proof -
  let ?skip = "n_samplings < 2 \<or> resample_size (length (columns features)) < 3 \<or> \<not> is_numeric n_features"
  let ?run = "associate ext target features function n_jobs features_ascending n_features
                 min_n_per_job n_samplings confidence n_permutations"
  have A: "?skip \<longrightarrow> ?run
               = (case sorted_scores (ext_parallelize_score ext) target features function n_jobs
                         features_ascending min_n_per_job of
                    Inl e \<Rightarrow> Inl e
                  | Inr scores \<Rightarrow>
                      (case permutation_stage (ext_parallelize_permute ext) (ext_shuffle ext) target
                              features function scores n_jobs min_n_per_job n_permutations of
                         Inl e \<Rightarrow> Inl e
                       | Inr pcols \<Rightarrow>
                           Inr \<lparr>score_rows = scores, moe_column = None, p_value_columns = pcols\<rparr>))"
  proof
    assume sk: ?skip
    have "bootstrap_stage (ext_choice ext) (ext_norm_ppf ext) target features function scores
            n_features n_samplings confidence = Inr None" for scores
      using sk by (simp only: bootstrap_stage_skipped)
    then show "?run
               = (case sorted_scores (ext_parallelize_score ext) target features function n_jobs
                         features_ascending min_n_per_job of
                    Inl e \<Rightarrow> Inl e
                  | Inr scores \<Rightarrow>
                      (case permutation_stage (ext_parallelize_permute ext) (ext_shuffle ext) target
                              features function scores n_jobs min_n_per_job n_permutations of
                         Inl e \<Rightarrow> Inl e
                       | Inr pcols \<Rightarrow>
                           Inr \<lparr>score_rows = scores, moe_column = None, p_value_columns = pcols\<rparr>))"
      by (simp add: associate_def split: sum.splits)
  qed
  have B: "((moe_column res = None) = ?skip)
         \<and> (\<not> ?skip \<longrightarrow> (\<exists>idx moe. indices_to_bootstrap n_features (score_rows res) = Inr idx
                        \<and> moe_column res = Some moe
                        \<and> length moe = length (score_rows res)
                        \<and> (\<forall>i < length (score_rows res).
                              fst (score_rows res ! i) \<in> set idx \<longrightarrow> (\<exists>v. moe ! i = Some v))))"
    if res: "?run = Inr res" for res
  proof -
    from res obtain ci where
      bs: "bootstrap_stage (ext_choice ext) (ext_norm_ppf ext) target features function
                 (score_rows res) n_features n_samplings confidence = Inr ci"
      and mc: "moe_column res = map_option (\<lambda>ci. map (\<lambda>r. map_of ci (fst r)) (score_rows res)) ci"
      using associate_moe_column by blast
    from mc have "(moe_column res = None) = (ci = None)" by simp
    with bs have first: "(moe_column res = None) = ?skip"
      by (metis bootstrap_stage_skipped sum.inject(2))
    have second: "\<exists>idx moe. indices_to_bootstrap n_features (score_rows res) = Inr idx
                        \<and> moe_column res = Some moe
                        \<and> length moe = length (score_rows res)
                        \<and> (\<forall>i < length (score_rows res).
                              fst (score_rows res ! i) \<in> set idx \<longrightarrow> (\<exists>v. moe ! i = Some v))"
      if ns: "\<not> ?skip"
    proof -
      from ns first obtain moe where moe: "moe_column res = Some moe" by auto
      with mc obtain tab where tab: "ci = Some tab"
        and moe_eq: "moe = map (\<lambda>r. map_of tab (fst r)) (score_rows res)" by (cases ci) auto
      from bs tab obtain idx where idx: "indices_to_bootstrap n_features (score_rows res) = Inr idx"
        and keys: "map fst tab = map fst (ix_series (rows features) idx)"
        using bootstrap_stage_run by blast
      from res have "sorted_scores (ext_parallelize_score ext) target features function n_jobs
                       features_ascending min_n_per_job = Inr (score_rows res)"
        by (rule associate_score_rows)
      with ids w par have "mset (map fst (score_rows res)) = mset (map fst (rows features))"
        using sorted_scores_ids [of features n_jobs "ext_parallelize_score ext" target "function"
            features_ascending min_n_per_job "score_rows res"]
        by blast
      then have "set (map fst (score_rows res)) = set (map fst (rows features))"
        by (rule mset_eq_setD)
      with indices_to_bootstrap_subset [OF idx] have "set idx \<subseteq> fst ` set (rows features)" by simp
      then have "map fst (ix_series (rows features) idx) = idx"
        using ids by (rule map_fst_ix_series)
      with keys have k: "map fst tab = idx" by simp
      have "\<exists>v. moe ! i = Some v"
        if "i < length (score_rows res)" "fst (score_rows res ! i) \<in> set idx" for i
      proof -
        from that k have "fst (score_rows res ! i) \<in> fst ` set tab" by (metis set_map)
        then have "map_of tab (fst (score_rows res ! i)) \<noteq> None"
          by (simp add: map_of_eq_None_iff)
        with that(1) show ?thesis by (auto simp: moe_eq)
      qed
      with idx moe moe_eq show ?thesis by auto
    qed
    from first second show ?thesis by blast
  qed
  from A B show ?thesis by blast
qed


lemma ix_series_subset: "set (ix_series s labels) \<subseteq> set s"
  by (auto simp: ix_series_def)

text \<open>
  Claim C7 (bootstrap margin of error). When the bootstrap stage runs, with unique
  sample identifiers and draws taken among the shared columns: there are at least two
  rounds; in each round \<open>choice\<close> is asked for \<open>ceil(0.632 * m)\<close> of the \<open>m\<close> column
  labels; the target and every selected feature row are read at the drawn labels, in
  drawn order and with repetitions; the row is scored against the target so resampled;
  and the margin of error of a selected feature is \<open>norm_ppf confidence\<close> times the
  sample standard deviation of its scores over the rounds, over the square root of
  \<open>n_samplings\<close>. \<open>choice\<close> stands for numpy's draw (uniform, with replacement) and
  \<open>norm_ppf\<close> for scipy's inverse normal distribution function; standard deviation and
  square root are read over the reals.
\<close>

theorem bootstrap_margin_of_error:
  fixes features :: "('f, 'v) frame"
  assumes run: "bootstrap_stage choice norm_ppf target features function scores n_features
                  n_samplings confidence = Inr (Some ci)"
    and dt: "distinct (map fst target)" and dc: "distinct (columns features)"
    and wf: "wf_frame features"
    and draws: "\<And>c_i. set (choice c_i (columns features) (resample_size (length (columns features))))
                       \<subseteq> set (columns features) \<inter> fst ` set target"
  shows "2 \<le> n_samplings
       \<and> resample_size (length (columns features))
           = nat \<lceil>632 / 1000 * real (length (columns features))\<rceil>
       \<and> (\<forall>c_i. map fst (ix_series target
                     (choice c_i (columns features) (resample_size (length (columns features)))))
                 = choice c_i (columns features) (resample_size (length (columns features))))
       \<and> (\<exists>idx. indices_to_bootstrap n_features scores = Inr idx
         \<and> ci = map (\<lambda>r. (fst r,
                    norm_ppf confidence
                    * (std (map (\<lambda>c_i. function
                             (map (\<lambda>k. the (map_of (zip (columns features) (snd r)) k))
                                  (choice c_i (columns features) (resample_size (length (columns features)))))
                             (map (\<lambda>k. the (map_of target k))
                                  (choice c_i (columns features) (resample_size (length (columns features))))))
                           [0..<nat n_samplings])
                       / sqrt (real_of_int n_samplings))))
                 (ix_series (rows features) idx))"
proof -
  let ?draw = "\<lambda>c_i. choice c_i (columns features) (resample_size (length (columns features)))"
  from run have rounds: "2 \<le> n_samplings"
    by (auto simp: bootstrap_stage_def split: if_splits)
  have size: "resample_size (length (columns features))
              = nat \<lceil>632 / 1000 * real (length (columns features))\<rceil>"
    by (simp add: resample_size_def)
  have keys: "\<forall>c_i. map fst (ix_series target (?draw c_i)) = ?draw c_i"
  proof
    fix c_i
    from draws [of c_i] have "set (?draw c_i) \<subseteq> fst ` set target" by blast
    then show "map fst (ix_series target (?draw c_i)) = ?draw c_i"
      using dt by (rule map_fst_ix_series)
  qed
  from run obtain idx where idx: "indices_to_bootstrap n_features scores = Inr idx"
    and ci: "ci = map (\<lambda>f. (fst f, norm_ppf confidence * (std (snd f) / sqrt (real_of_int n_samplings))))
                     (sampled_scores choice target features function idx n_samplings)"
    by (auto simp: bootstrap_stage_def Let_def split: if_splits sum.splits)
  have tgt: "map snd (ix_series target (?draw c_i)) = map (\<lambda>k. the (map_of target k)) (?draw c_i)" for c_i
    using draws [of c_i] dt by (intro map_snd_ix_series) auto
  have row: "map snd (ix_series (zip (columns features) (snd r)) (?draw c_i))
             = map (\<lambda>k. the (map_of (zip (columns features) (snd r)) k)) (?draw c_i)"
    if "r \<in> set (ix_series (rows features) idx)" for r c_i
  proof -
    from that have "r \<in> set (rows features)" using ix_series_subset by blast
    with wf have len: "length (snd r) = length (columns features)"
      by (simp add: wf_frame_def list_all_iff)
    then have m: "map fst (zip (columns features) (snd r)) = columns features" by simp
    then have "fst ` set (zip (columns features) (snd r)) = set (columns features)"
      by (metis set_map)
    moreover from m dc have "distinct (map fst (zip (columns features) (snd r)))" by simp
    ultimately show ?thesis using draws [of c_i] by (intro map_snd_ix_series) auto
  qed
  have "sampled_scores choice target features function idx n_samplings
        = map (\<lambda>r. (fst r,
                 map (\<lambda>c_i. function
                        (map (\<lambda>k. the (map_of (zip (columns features) (snd r)) k)) (?draw c_i))
                        (map (\<lambda>k. the (map_of target k)) (?draw c_i)))
                     [0..<nat n_samplings]))
              (ix_series (rows features) idx)"
    unfolding sampled_scores_def Let_def ix_rows_def
    by (rule map_cong) (simp_all add: tgt row)
  with idx ci have main: "\<exists>idx. indices_to_bootstrap n_features scores = Inr idx
         \<and> ci = map (\<lambda>r. (fst r,
                    norm_ppf confidence
                    * (std (map (\<lambda>c_i. function
                             (map (\<lambda>k. the (map_of (zip (columns features) (snd r)) k)) (?draw c_i))
                             (map (\<lambda>k. the (map_of target k)) (?draw c_i)))
                           [0..<nat n_samplings])
                       / sqrt (real_of_int n_samplings))))
                 (ix_series (rows features) idx)"
    by (simp add: comp_def)
  from rounds size keys main show ?thesis by blast
qed

lemma example_indices: "indices_to_bootstrap (IntN 1) [(''F1'', 51), (''F3'', 26)] = Inr [''F1'', ''F3'']"
  by (simp add: indices_to_bootstrap_def)

lemma example_associate_bootstrap:
  "\<exists>moe. associate example_externals example_aligned_target example_kept_features example_scorer
            1 False (IntN 1) 100 2 (95 / 100) 0
          = Inr \<lparr>score_rows = [(''F1'', 51), (''F3'', 26)], moe_column = Some moe,
                 p_value_columns = None\<rparr>"
proof -
  have "resample_size (length (columns example_kept_features)) = 3"
    by (simp add: example_kept_features_def resample_size_4)
  then show ?thesis
    by (simp add: associate_def example_sorted_scores bootstrap_stage_def example_indices
        permutation_stage_def)
qed

theorem bootstrap_skip_conditions_witness:
  "distinct (map fst (rows example_kept_features))
   \<and> (1::int) \<le> 1
   \<and> (1::int) < 2
   \<and> associate example_externals example_aligned_target example_kept_features example_scorer
        1 False (FloatN (95 / 100)) 100 1 (95 / 100) 2 = Inr \<lparr>score_rows = [(''F1'', 51), (''F3'', 26)], moe_column = None,
          p_value_columns = Some \<lparr>p_value = [1 / 4, 1], fdr_forward = [1 / 2, 1],
                                   fdr_reverse = [3 / 4, 0], fdr = [1 / 2, 0]\<rparr>\<rparr>
   \<and> moe_column \<lparr>score_rows = [(''F1'', 51), (''F3'', 26)], moe_column = None,
          p_value_columns = Some \<lparr>p_value = [1 / 4, 1], fdr_forward = [1 / 2, 1],
                                   fdr_reverse = [3 / 4, 0], fdr = [1 / 2, 0]\<rparr>\<rparr> = None
   \<and> (2::int) \<ge> 2
   \<and> 3 \<le> resample_size (length (columns example_kept_features))
   \<and> is_numeric (IntN 1)
   \<and> (\<exists>res idx moe v.
         associate example_externals example_aligned_target example_kept_features example_scorer
           1 False (IntN 1) 100 2 (95 / 100) 0 = Inr res
       \<and> indices_to_bootstrap (IntN 1) (score_rows res) = Inr idx
       \<and> moe_column res = Some moe
       \<and> fst (score_rows res ! 0) \<in> set idx
       \<and> moe ! 0 = Some v)"
proof -
  have d: "distinct (map fst (rows example_kept_features))" by (simp add: example_kept_features_def)
  have w: "(1::int) \<le> 1" by simp
  have p: "\<And>args. mset (ext_parallelize_score example_externals p_score args 1) = mset (map p_score args)"
    by (simp add: example_externals_def)
  have sk: "(1::int) < 2" by simp
  have ns: "\<not> ((2::int) < 2 \<or> resample_size (length (columns example_kept_features)) < 3
               \<or> \<not> is_numeric (IntN 1))"
    by (simp add: example_kept_features_def resample_size_4)
  from bootstrap_skip_conditions [OF d w p, of 1 "FloatN (95 / 100)" example_aligned_target
      example_scorer False 100 "95 / 100" 2]
  have "(moe_column \<lparr>score_rows = [(''F1'', 51), (''F3'', 26)], moe_column = None,
          p_value_columns = Some \<lparr>p_value = [1 / 4, 1], fdr_forward = [1 / 2, 1],
                                   fdr_reverse = [3 / 4, 0], fdr = [1 / 2, 0]\<rparr>\<rparr> = None)
        = ((1::int) < 2 \<or> resample_size (length (columns example_kept_features)) < 3
           \<or> \<not> is_numeric (FloatN (95 / 100)))"
    using example_associate by blast
  with sk have first: "moe_column \<lparr>score_rows = [(''F1'', 51), (''F3'', 26)], moe_column = None,
          p_value_columns = Some \<lparr>p_value = [1 / 4, 1], fdr_forward = [1 / 2, 1],
                                   fdr_reverse = [3 / 4, 0], fdr = [1 / 2, 0]\<rparr>\<rparr> = None" by blast
  from example_associate_bootstrap obtain moe0 where
    run: "associate example_externals example_aligned_target example_kept_features example_scorer
            1 False (IntN 1) 100 2 (95 / 100) 0
          = Inr \<lparr>score_rows = [(''F1'', 51), (''F3'', 26)], moe_column = Some moe0,
                 p_value_columns = None\<rparr>" ..
  let ?res = "\<lparr>score_rows = [(''F1'', 51 :: real), (''F3'', 26)], moe_column = Some moe0,
                 p_value_columns = None\<rparr>"
  from bootstrap_skip_conditions [OF d w p, of 2 "IntN 1" example_aligned_target
      example_scorer False 100 "95 / 100" 0] run ns
  obtain idx moe where
    i1: "indices_to_bootstrap (IntN 1) (score_rows ?res) = Inr idx"
    and i2: "moe_column ?res = Some moe"
    and i3: "\<forall>i < length (score_rows ?res).
                fst (score_rows ?res ! i) \<in> set idx \<longrightarrow> (\<exists>v. moe ! i = Some v)"
    by blast
  from i1 have "idx = [''F1'', ''F3'']" by (simp add: example_indices)
  then have mem: "fst (score_rows ?res ! 0) \<in> set idx" by simp
  have "(0::nat) < length (score_rows ?res)" by simp
  with i3 mem obtain v where "moe ! 0 = Some v" by blast
  with run i1 i2 mem have second: "\<exists>res idx moe v.
         associate example_externals example_aligned_target example_kept_features example_scorer
           1 False (IntN 1) 100 2 (95 / 100) 0 = Inr res
       \<and> indices_to_bootstrap (IntN 1) (score_rows res) = Inr idx
       \<and> moe_column res = Some moe
       \<and> fst (score_rows res ! 0) \<in> set idx
       \<and> moe ! 0 = Some v"
    by blast
  from ns have ns': "(2::int) \<ge> 2" "3 \<le> resample_size (length (columns example_kept_features))"
    "is_numeric (IntN 1)"
    by simp_all
  from d w sk example_associate first ns' second show ?thesis by blast
qed

lemma example_bootstrap_stage:
  "bootstrap_stage (ext_choice example_externals) (ext_norm_ppf example_externals)
     example_aligned_target example_kept_features example_scorer [(''F1'', 51), (''F3'', 26)]
     (IntN 1) 2 (95 / 100)
   = Inr (Some [(''F1'', 2 * (std [50, 26] / sqrt 2)), (''F3'', 2 * (std [22, 21] / sqrt 2))])"
proof -
  have size: "resample_size (length (columns example_kept_features)) = 3"
    by (simp add: example_kept_features_def resample_size_4)
  have "sampled_scores (ext_choice example_externals) example_aligned_target example_kept_features
          example_scorer [''F1'', ''F3''] 2
        = [(''F1'', [50, 26]), (''F3'', [22, 21])]"
    unfolding sampled_scores_def size
    by (simp add: example_externals_def example_aligned_target_def example_kept_features_def
        example_scorer_def ix_rows_def ix_series_def upt_rec)
  then show ?thesis
    by (simp add: bootstrap_stage_def size example_indices example_externals_def)
qed

theorem bootstrap_margin_of_error_witness:
  "bootstrap_stage (ext_choice example_externals) (ext_norm_ppf example_externals)
     example_aligned_target example_kept_features example_scorer [(''F1'', 51), (''F3'', 26)]
     (IntN 1) 2 (95 / 100)
   = Inr (Some [(''F1'', 2 * (std [50, 26] / sqrt 2)), (''F3'', 2 * (std [22, 21] / sqrt 2))])
   \<and> distinct (map fst example_aligned_target)
   \<and> distinct (columns example_kept_features)
   \<and> wf_frame example_kept_features
   \<and> (2::int) \<le> 2
   \<and> resample_size (length (columns example_kept_features))
       = nat \<lceil>632 / 1000 * real (length (columns example_kept_features))\<rceil>
   \<and> map fst (ix_series example_aligned_target
          (ext_choice example_externals 1 (columns example_kept_features)
             (resample_size (length (columns example_kept_features)))))
       = ext_choice example_externals 1 (columns example_kept_features)
             (resample_size (length (columns example_kept_features)))
   \<and> (\<exists>idx. indices_to_bootstrap (IntN 1) [(''F1'', 51), (''F3'', 26)] = Inr idx
         \<and> [(''F1'', 2 * (std [50, 26] / sqrt 2)), (''F3'', 2 * (std [22, 21] / sqrt 2))]
            = map (\<lambda>r. (fst r,
                    ext_norm_ppf example_externals (95 / 100)
                    * (std (map (\<lambda>c_i. example_scorer
                             (map (\<lambda>k. the (map_of (zip (columns example_kept_features) (snd r)) k))
                                  (ext_choice example_externals c_i (columns example_kept_features)
                                     (resample_size (length (columns example_kept_features)))))
                             (map (\<lambda>k. the (map_of example_aligned_target k))
                                  (ext_choice example_externals c_i (columns example_kept_features)
                                     (resample_size (length (columns example_kept_features))))))
                           [0..<nat 2])
                       / sqrt (real_of_int 2))))
                 (ix_series (rows example_kept_features) idx))"
proof -
  have dt: "distinct (map fst example_aligned_target)" by (simp add: example_aligned_target_def)
  have dc: "distinct (columns example_kept_features)" by (simp add: example_kept_features_def)
  have wf: "wf_frame example_kept_features" by (simp add: wf_frame_def example_kept_features_def)
  have draws: "\<And>c_i. set (ext_choice example_externals c_i (columns example_kept_features)
                          (resample_size (length (columns example_kept_features))))
                     \<subseteq> set (columns example_kept_features) \<inter> fst ` set example_aligned_target"
  proof -
    fix c_i
    have "set (take k (rotate c_i (columns example_kept_features)))
          \<subseteq> set (columns example_kept_features)" for k
      using set_take_subset [of k "rotate c_i (columns example_kept_features)"] by simp
    moreover have "set (columns example_kept_features) \<subseteq> fst ` set example_aligned_target"
      by (simp add: example_kept_features_def example_aligned_target_def)
    ultimately show "set (ext_choice example_externals c_i (columns example_kept_features)
                          (resample_size (length (columns example_kept_features))))
                     \<subseteq> set (columns example_kept_features) \<inter> fst ` set example_aligned_target"
      by (auto simp: example_externals_def)
  qed
  note inst = bootstrap_margin_of_error [OF example_bootstrap_stage dt dc wf draws]
  from inst have a: "(2::int) \<le> 2" by blast
  from inst have b: "resample_size (length (columns example_kept_features))
       = nat \<lceil>632 / 1000 * real (length (columns example_kept_features))\<rceil>" by blast
  from inst have c: "map fst (ix_series example_aligned_target
          (ext_choice example_externals 1 (columns example_kept_features)
             (resample_size (length (columns example_kept_features)))))
       = ext_choice example_externals 1 (columns example_kept_features)
             (resample_size (length (columns example_kept_features)))" by blast
  from inst have d: "\<exists>idx. indices_to_bootstrap (IntN 1) [(''F1'', 51), (''F3'', 26)] = Inr idx
         \<and> [(''F1'', 2 * (std [50, 26] / sqrt 2)), (''F3'', 2 * (std [22, 21] / sqrt 2))]
            = map (\<lambda>r. (fst r,
                    ext_norm_ppf example_externals (95 / 100)
                    * (std (map (\<lambda>c_i. example_scorer
                             (map (\<lambda>k. the (map_of (zip (columns example_kept_features) (snd r)) k))
                                  (ext_choice example_externals c_i (columns example_kept_features)
                                     (resample_size (length (columns example_kept_features)))))
                             (map (\<lambda>k. the (map_of example_aligned_target k))
                                  (ext_choice example_externals c_i (columns example_kept_features)
                                     (resample_size (length (columns example_kept_features))))))
                           [0..<nat 2])
                       / sqrt (real_of_int 2))))
                 (ix_series (rows example_kept_features) idx)"
    by blast
  from example_bootstrap_stage dt dc wf a b c d show ?thesis by blast
qed

end
